theory Spec2Isabelle
  imports Main "HOL-Library.Word"
begin

unbundle bit_operations_syntax

section \<open>JavaScript values, objects and the object store\<close>

text \<open>
  The typed values of \<^verbatim>\<open>boolean.type.ts\<close> receive and return JavaScript values.
  A value is a primitive or a reference to an object of the store. The interfaces declare
  the fields of the compound payloads as \<^verbatim>\<open>number\<close> and \<^verbatim>\<open>boolean\<close>, so
  an object holds primitives only. Numbers are integers: fractions, NaN and the infinities
  are not part of the model.
\<close>

datatype jsprim = JUndefined | JNull | JBool bool | JNum int

type_synonym addr = nat

datatype jsval = Prim jsprim | Ref addr

text \<open>An object is the map of its own properties; the store is the list of all objects
  allocated so far, and an address is an index into it.\<close>

type_synonym jsobj = "string \<rightharpoonup> jsprim"

type_synonym heap = "jsobj list"

definition alloc :: "heap \<Rightarrow> jsobj \<Rightarrow> heap \<times> addr" where
  "alloc h obj = (h @ [obj], length h)"

text \<open>Reading a property: \<^verbatim>\<open>obj.key\<close> is \<^verbatim>\<open>undefined\<close> when the key is absent.\<close>

definition getField :: "jsobj \<Rightarrow> string \<Rightarrow> jsprim" where
  "getField obj key = (case obj key of None \<Rightarrow> JUndefined | Some v \<Rightarrow> v)"

text \<open>The own enumerable properties of a value: those of the object it refers to, none for
  a primitive of this model.\<close>

definition ownProps :: "heap \<Rightarrow> jsval \<Rightarrow> jsobj" where
  "ownProps h v = (case v of Ref a \<Rightarrow> h ! a | Prim p \<Rightarrow> Map.empty)"

text \<open>The coercions of the language: \<^verbatim>\<open>!!x\<close> and the conversion of an operand of a
  bitwise operator to a number.\<close>

fun ToBoolean :: "jsprim \<Rightarrow> bool" where
  "ToBoolean JUndefined = False"
| "ToBoolean JNull = False"
| "ToBoolean (JBool b) = b"
| "ToBoolean (JNum n) = (n \<noteq> 0)"

fun ToNumber :: "jsprim \<Rightarrow> int" where
  "ToNumber JUndefined = 0"
| "ToNumber JNull = 0"
| "ToNumber (JBool b) = (if b then 1 else 0)"
| "ToNumber (JNum n) = n"

subsection \<open>lodash\<close>

definition isUndefined :: "jsval \<Rightarrow> bool" where
  "isUndefined v = (v = Prim JUndefined)"

definition isNil :: "jsval \<Rightarrow> bool" where
  "isNil v = (v = Prim JUndefined \<or> v = Prim JNull)"

definition isBoolean :: "jsval \<Rightarrow> bool" where
  "isBoolean v = (case v of Prim (JBool b) \<Rightarrow> True | _ \<Rightarrow> False)"

definition has :: "heap \<Rightarrow> jsval \<Rightarrow> string \<Rightarrow> bool" where
  "has h v key = (case v of Ref a \<Rightarrow> (h ! a) key \<noteq> None | Prim p \<Rightarrow> False)"

text \<open>\<^verbatim>\<open>_.clone\<close> and \<^verbatim>\<open>_.cloneDeep\<close> return a primitive as it is and copy an object
  into a new one; the two agree on objects whose fields are primitives.\<close>

definition clone :: "heap \<Rightarrow> jsval \<Rightarrow> heap \<times> jsval" where
  "clone h v =
     (case v of
        Ref a \<Rightarrow> (let (h', a') = alloc h (h ! a) in (h', Ref a'))
      | Prim p \<Rightarrow> (h, Prim p))"

definition cloneDeep :: "heap \<Rightarrow> jsval \<Rightarrow> heap \<times> jsval" where
  "cloneDeep h v = clone h v"

text \<open>\<^verbatim>\<open>_.assign({}, defaults, value)\<close>: a new object that receives the properties of
  \<^verbatim>\<open>defaults\<close> and then those of \<^verbatim>\<open>value\<close>, later ones overwriting.\<close>

definition assign :: "heap \<Rightarrow> jsobj \<Rightarrow> jsval \<Rightarrow> heap \<times> addr" where
  "assign h defaults v = alloc h ((Map.empty ++ defaults) ++ ownProps h v)"

section \<open>Errors\<close>

text \<open>\<^verbatim>\<open>BACnet\<close> is \<^verbatim>\<open>Errors.BACnet\<close>, the only error the types throw, with its message.
  \<^verbatim>\<open>OutOfRange\<close> and \<^verbatim>\<open>MalformedPDU\<close> are the failures the spec gives the byte cursor
  and the APDU layer, whose code is not among the sources.\<close>

datatype error = BACnet string | OutOfRange | MalformedPDU

section \<open>Bit helpers (Utils.Typer)\<close>

text \<open>
  \<^verbatim>\<open>Utils.Typer\<close> is not among the sources. The spec describes its helpers as get/set of a
  single bit and of a bit range, \<^verbatim>\<open>getBitRange(word, startBit, widthBits) -> unsigned\<close>,
  indexed from the least significant bit, and the object identifier as the 32-bit word
  \<^verbatim>\<open>(type<<22)|instance\<close>. In the model a bit map is a number taken as a 32-bit word,
  and every helper returns an unsigned number.
\<close>

text \<open>Modelled from the spec: \<^verbatim>\<open>Typer.getBit\<close> (absent), the bit at \<open>pos\<close> as 0 or 1.\<close>

definition getBit :: "int \<Rightarrow> nat \<Rightarrow> int" where
  "getBit bitMap pos = (if bit (word_of_int bitMap :: 32 word) pos then 1 else 0)"

text \<open>Modelled from the spec: \<^verbatim>\<open>Typer.setBit\<close> (absent), the bit map with the bit at
  \<open>pos\<close> set or cleared and every other bit as it was.\<close>

definition setBit :: "int \<Rightarrow> nat \<Rightarrow> bool \<Rightarrow> int" where
  "setBit bitMap pos bitValue =
     uint (if bitValue then set_bit pos (word_of_int bitMap :: 32 word)
           else unset_bit pos (word_of_int bitMap :: 32 word))"

text \<open>Modelled from the spec: \<^verbatim>\<open>Typer.getBitRange\<close> (absent), the \<open>len\<close> bits from
  \<open>startPos\<close> upwards as an unsigned number.\<close>

definition getBitRange :: "int \<Rightarrow> nat \<Rightarrow> nat \<Rightarrow> int" where
  "getBitRange bitMap startPos len =
     uint (take_bit len (drop_bit startPos (word_of_int bitMap :: 32 word)))"

text \<open>Modelled from the spec: \<^verbatim>\<open>Typer.setBitRange\<close> (absent), the bit map with the
  \<open>len\<close> bits from \<open>startPos\<close> upwards replaced by the low \<open>len\<close> bits of the value.\<close>

definition setBitRange :: "int \<Rightarrow> nat \<Rightarrow> nat \<Rightarrow> int \<Rightarrow> int" where
  "setBitRange bitMap startPos len bitValue =
     uint (((word_of_int bitMap :: 32 word) AND NOT (push_bit startPos (mask len)))
           OR push_bit startPos (take_bit len (word_of_int bitValue)))"

section \<open>Object identifier: the 32-bit word\<close>

text \<open>\<^verbatim>\<open>BACnetObjectId.decodeObjectIdentifier\<close> and \<^verbatim>\<open>encodeObjectIdentifier\<close>. The
  argument of the encoder is the object whose fields it reads; the decoder returns the
  fields of the object literal it builds.\<close>

definition decodeObjectIdentifier :: "int \<Rightarrow> jsobj" where
  "decodeObjectIdentifier objId =
     (let objType = getBitRange objId 22 10;
          objInstance = getBitRange objId 0 22
      in [''type'' \<mapsto> JNum objType, ''instance'' \<mapsto> JNum objInstance])"

definition encodeObjectIdentifier :: "jsobj \<Rightarrow> int" where
  "encodeObjectIdentifier objId =
     (let encodedObjectIdentifier = 0;
          encodedObjectIdentifier =
            setBitRange encodedObjectIdentifier 22 10 (ToNumber (getField objId ''type''));
          encodedObjectIdentifier =
            setBitRange encodedObjectIdentifier 0 22 (ToNumber (getField objId ''instance''))
      in encodedObjectIdentifier)"

section \<open>Tags and the byte cursor (IOs.Reader, IOs.Writer)\<close>

text \<open>The tag as the types use it: \<^verbatim>\<open>tag.num\<close>, \<^verbatim>\<open>tag.type\<close> (the class) and
  \<^verbatim>\<open>tag.value\<close> (the length/value subfield, the spec's \<open>length\<close>).\<close>

record Tag =
  num :: int
  type :: int
  "value" :: int

text \<open>Modelled from the spec: \<^verbatim>\<open>Enums.TagType.application\<close> (the enumeration is absent);
  the spec numbers the classes 0 = application, 1 = context.\<close>

definition TagType_application :: int where
  "TagType_application = 0"

text \<open>Modelled from the spec: \<^verbatim>\<open>Enums.TagType.context\<close> (absent), class 1.\<close>

definition TagType_context :: int where
  "TagType_context = 1"

text \<open>\<^verbatim>\<open>Enums.PropertyType\<close> is not among the sources either, and the spec gives no tag
  numbers: the three members the types use are parameters of the model.\<close>

record PropertyType =
  boolean :: int
  bitString :: int
  objectIdentifier :: int

text \<open>
  Modelled from the spec: \<^verbatim>\<open>IOs.Reader\<close> (absent), a sequential cursor over a fixed buffer
  with an advancing position. The reader options \<^verbatim>\<open>opts\<close> are not described by the spec
  and not modelled.
\<close>

record Reader =
  buffer :: "8 word list"
  offset :: nat

text \<open>Modelled from the spec: \<^verbatim>\<open>Reader.readUInt8\<close> (absent), one unsigned byte; an
  out-of-range error if the read exceeds the buffer.\<close>

definition readUInt8 :: "Reader \<Rightarrow> error + int \<times> Reader" where
  "readUInt8 r =
     (if offset r + 1 \<le> length (buffer r)
      then Inr (uint (buffer r ! offset r), r\<lparr>offset := offset r + 1\<rparr>)
      else Inl OutOfRange)"

text \<open>Modelled from the spec: \<^verbatim>\<open>Reader.readUInt16BE\<close> (absent), two bytes, big-endian.\<close>

definition readUInt16BE :: "Reader \<Rightarrow> error + int \<times> Reader" where
  "readUInt16BE r =
     (if offset r + 2 \<le> length (buffer r)
      then Inr (uint (buffer r ! offset r) * 256 + uint (buffer r ! (offset r + 1)),
                r\<lparr>offset := offset r + 2\<rparr>)
      else Inl OutOfRange)"

text \<open>Modelled from the spec: \<^verbatim>\<open>Reader.readUInt32BE\<close> (absent), four bytes, big-endian.\<close>

definition readUInt32BE :: "Reader \<Rightarrow> error + int \<times> Reader" where
  "readUInt32BE r =
     (if offset r + 4 \<le> length (buffer r)
      then Inr (uint (buffer r ! offset r) * 16777216
                + uint (buffer r ! (offset r + 1)) * 65536
                + uint (buffer r ! (offset r + 2)) * 256
                + uint (buffer r ! (offset r + 3)),
                r\<lparr>offset := offset r + 4\<rparr>)
      else Inl OutOfRange)"

text \<open>Modelled from the spec: the extended length of the tag decoder (absent; section 4.2).
  After a length candidate of 5 one more byte is read: 254 selects a further 2-byte
  length, 255 a further 4-byte length, any other byte is the length.\<close>

definition readLength :: "Reader \<Rightarrow> error + int \<times> Reader" where
  "readLength r =
     (case readUInt8 r of
        Inl e \<Rightarrow> Inl e
      | Inr (b, r1) \<Rightarrow>
          if b = 254 then readUInt16BE r1
          else if b = 255 then readUInt32BE r1
          else Inr (b, r1))"

text \<open>
  Modelled from the spec: \<^verbatim>\<open>Reader.readTag\<close> (absent), the tag decoder of section 4.2. One
  header byte: high nibble = tag number candidate, bit 3 = class, low 3 bits = length/value
  candidate. A number candidate of 15 reads one more byte as the number; a length candidate
  of 5 reads the extended length; every other candidate is used as it is.
\<close>

definition readTag :: "Reader \<Rightarrow> error + Tag \<times> Reader" where
  "readTag r =
     (case readUInt8 r of
        Inl e \<Rightarrow> Inl e
      | Inr (tagData, r1) \<Rightarrow>
          (let numCandidate = tagData div 16;
               tagClass = (tagData div 8) mod 2;
               lvt = tagData mod 8
           in case (if numCandidate = 15 then readUInt8 r1 else Inr (numCandidate, r1)) of
                Inl e \<Rightarrow> Inl e
              | Inr (tagNum, r2) \<Rightarrow>
                  (case (if lvt = 5 then readLength r2 else Inr (lvt, r2)) of
                     Inl e \<Rightarrow> Inl e
                   | Inr (len, r3) \<Rightarrow>
                       Inr (\<lparr>num = tagNum, type = tagClass, value = len\<rparr>, r3))))"

text \<open>
  Modelled from the spec: \<^verbatim>\<open>IOs.Writer\<close> (absent). A writer is the sequence of bytes
  written so far and each write appends (the spec's "appended bytes"); the capacity of the
  target buffer is not modelled.
\<close>

type_synonym Writer = "8 word list"

text \<open>Modelled from the spec: \<^verbatim>\<open>Writer.writeUInt8\<close> (absent), one byte.\<close>

definition writeUInt8 :: "Writer \<Rightarrow> int \<Rightarrow> Writer" where
  "writeUInt8 w v = w @ [word_of_int v]"

text \<open>Modelled from the spec: \<^verbatim>\<open>Writer.writeUInt16BE\<close> (absent), two bytes, big-endian.\<close>

definition writeUInt16BE :: "Writer \<Rightarrow> int \<Rightarrow> Writer" where
  "writeUInt16BE w v = w @ [word_of_int (v div 256), word_of_int v]"

text \<open>Modelled from the spec: \<^verbatim>\<open>Writer.writeUInt32BE\<close> (absent), four bytes, big-endian.\<close>

definition writeUInt32BE :: "Writer \<Rightarrow> int \<Rightarrow> Writer" where
  "writeUInt32BE w v =
     w @ [word_of_int (v div 16777216), word_of_int (v div 65536),
          word_of_int (v div 256), word_of_int v]"

text \<open>
  Modelled from the spec: \<^verbatim>\<open>Writer.writeTag\<close> (absent), the tag encoder of section 4.2,
  the inverse of the decoder in its minimal form: the number inline when it is at most 14,
  else the nibble 15 and one more byte; the length/value inline when it is at most 4, else
  the escape 5 and the smallest of the 1-, 2- and 4-byte forms.
\<close>

definition writeTag :: "Writer \<Rightarrow> int \<Rightarrow> int \<Rightarrow> int \<Rightarrow> Writer" where
  "writeTag w tagNumber tagClass tagValue =
     (let nibble = (if tagNumber \<le> 14 then tagNumber else 15);
          lvt = (if tagValue \<le> 4 then tagValue else 5);
          w1 = writeUInt8 w (nibble * 16 + tagClass * 8 + lvt);
          w2 = (if tagNumber \<le> 14 then w1 else writeUInt8 w1 tagNumber)
      in if tagValue \<le> 4 then w2
         else if tagValue \<le> 253 then writeUInt8 w2 tagValue
         else if tagValue \<le> 65535 then writeUInt16BE (writeUInt8 w2 254) tagValue
         else writeUInt32BE (writeUInt8 w2 255) tagValue)"

section \<open>The typed values\<close>

text \<open>Every class holds the last tag read (\<^verbatim>\<open>undefined\<close> until a read) and its data.
  A method that can throw returns its result together with the state it leaves behind, so
  that what a failed call has changed is part of the model.\<close>

record 'd TypeBase =
  tag :: "Tag option"
  data :: 'd

subsection \<open>BACnetBoolean\<close>

text \<open>Only a boolean can pass \<^verbatim>\<open>checkAndGetValue\<close>, which returns the value it was
  given; the data is that boolean.\<close>

type_synonym BACnetBoolean = "bool TypeBase"

definition BACnetBoolean_checkAndGetValue :: "jsval \<Rightarrow> error + bool" where
  \<open>BACnetBoolean_checkAndGetValue v =
     (if \<not> isBoolean v
      then Inl (BACnet ''BACnetBoolean - updateValue: Value must be of type "boolean"!'')
      else (case v of
              Prim (JBool b) \<Rightarrow> Inr b
            | _ \<Rightarrow> Inl (BACnet
        ''BACnetBoolean - updateValue: Value must be of type "boolean"!'')))\<close>

definition BACnetBoolean_constructor :: "jsval \<Rightarrow> error + BACnetBoolean" where
  "BACnetBoolean_constructor defValue =
     (if isUndefined defValue then Inr \<lparr>tag = None, data = False\<rparr>
      else case BACnetBoolean_checkAndGetValue defValue of
             Inl e \<Rightarrow> Inl e
           | Inr b \<Rightarrow> Inr \<lparr>tag = None, data = b\<rparr>)"

definition BACnetBoolean_readValue ::
  "Reader \<Rightarrow> BACnetBoolean \<Rightarrow> (error + Reader) \<times> BACnetBoolean" where
  "BACnetBoolean_readValue reader this =
     (case readTag reader of
        Inl e \<Rightarrow> (Inl e, this)
      | Inr (t, r1) \<Rightarrow>
          (let this1 = this\<lparr>tag := Some t\<rparr>
           in if type t = TagType_application
              then (Inr r1, this1\<lparr>data := (value t \<noteq> 0)\<rparr>)
              else if type t = TagType_context
              then (case readUInt8 r1 of
                      Inl e \<Rightarrow> (Inl e, this1)
                    | Inr (b, r2) \<Rightarrow> (Inr r2, this1\<lparr>data := (b \<noteq> 0)\<rparr>))
              else (Inr r1, this1)))"

definition BACnetBoolean_writeValue :: "PropertyType \<Rightarrow> Writer \<Rightarrow> BACnetBoolean \<Rightarrow> Writer" where
  "BACnetBoolean_writeValue Enums_PropertyType writer this =
     writeTag writer (boolean Enums_PropertyType) TagType_application
       (if data this then 1 else 0)"

definition BACnetBoolean_setValue ::
  "BACnetBoolean \<Rightarrow> jsval \<Rightarrow> (error + unit) \<times> BACnetBoolean" where
  "BACnetBoolean_setValue this newValue =
     (case BACnetBoolean_checkAndGetValue newValue of
        Inl e \<Rightarrow> (Inl e, this)
      | Inr b \<Rightarrow> (Inr (), this\<lparr>data := b\<rparr>))"

definition BACnetBoolean_getValue :: "BACnetBoolean \<Rightarrow> bool" where
  "BACnetBoolean_getValue this = data this"

subsection \<open>BACnetStatusFlags\<close>

text \<open>The data is a reference to the flags object in the store.\<close>

type_synonym BACnetStatusFlags = "addr TypeBase"

definition BACnetStatusFlags_checkAndGetValue :: "heap \<Rightarrow> jsval \<Rightarrow> heap \<times> addr" where
  "BACnetStatusFlags_checkAndGetValue h v =
     assign h [''fault'' \<mapsto> JBool False, ''inAlarm'' \<mapsto> JBool False,
               ''outOfService'' \<mapsto> JBool False, ''overridden'' \<mapsto> JBool False] v"

definition BACnetStatusFlags_constructor :: "heap \<Rightarrow> jsval \<Rightarrow> heap \<times> BACnetStatusFlags" where
  "BACnetStatusFlags_constructor h defValue =
     (let (h', a) = BACnetStatusFlags_checkAndGetValue h defValue
      in (h', \<lparr>tag = None, data = a\<rparr>))"

definition BACnetStatusFlags_readValue ::
  "Reader \<Rightarrow> heap \<Rightarrow> BACnetStatusFlags \<Rightarrow> (error + Reader) \<times> heap \<times> BACnetStatusFlags" where
  "BACnetStatusFlags_readValue reader h this =
     (case readTag reader of
        Inl e \<Rightarrow> (Inl e, h, this)
      | Inr (t, r1) \<Rightarrow>
          (let this1 = this\<lparr>tag := Some t\<rparr>
           in case readUInt8 r1 of
                Inl e \<Rightarrow> (Inl e, h, this1)
              | Inr (unusedBits, r2) \<Rightarrow>
                  (case readUInt8 r2 of
                     Inl e \<Rightarrow> (Inl e, h, this1)
                   | Inr (v, r3) \<Rightarrow>
                       (let inAlarm = (getBit v 7 \<noteq> 0);
                            fault = (getBit v 6 \<noteq> 0);
                            overridden = (getBit v 5 \<noteq> 0);
                            outOfService = (getBit v 4 \<noteq> 0);
                            (h', a) = alloc h [''inAlarm'' \<mapsto> JBool inAlarm,
                                               ''fault'' \<mapsto> JBool fault,
                                               ''overridden'' \<mapsto> JBool overridden,
                                               ''outOfService'' \<mapsto> JBool outOfService]
                        in (Inr r3, h', this1\<lparr>data := a\<rparr>)))))"

definition BACnetStatusFlags_writeValue ::
  "PropertyType \<Rightarrow> Writer \<Rightarrow> heap \<Rightarrow> BACnetStatusFlags \<Rightarrow> Writer" where
  "BACnetStatusFlags_writeValue Enums_PropertyType writer h this =
     (let w1 = writeTag writer (bitString Enums_PropertyType) 0 2;
          w2 = writeUInt8 w1 4;
          statusFlags = 0;
          statusFlags = setBit statusFlags 7 (ToBoolean (getField (h ! data this) ''inAlarm''));
          statusFlags = setBit statusFlags 6 (ToBoolean (getField (h ! data this) ''fault''));
          statusFlags = setBit statusFlags 5 (ToBoolean (getField (h ! data this) ''overridden''));
          statusFlags = setBit statusFlags 4 (ToBoolean (getField (h ! data this) ''outOfService''))
      in writeUInt8 w2 statusFlags)"

definition BACnetStatusFlags_setValue ::
  "heap \<Rightarrow> BACnetStatusFlags \<Rightarrow> jsval \<Rightarrow> heap \<times> BACnetStatusFlags" where
  "BACnetStatusFlags_setValue h this newValue =
     (let (h', a) = BACnetStatusFlags_checkAndGetValue h newValue
      in (h', this\<lparr>data := a\<rparr>))"

definition BACnetStatusFlags_getValue :: "heap \<Rightarrow> BACnetStatusFlags \<Rightarrow> heap \<times> jsval" where
  "BACnetStatusFlags_getValue h this = cloneDeep h (Ref (data this))"

subsection \<open>BACnetObjectId\<close>

text \<open>The data is a reference to the \<^verbatim>\<open>{type, instance}\<close> object in the store. Only a
  reference can pass \<^verbatim>\<open>checkAndGetValue\<close>, which returns the value it was given.\<close>

type_synonym BACnetObjectId = "addr TypeBase"

definition BACnetObjectId_checkAndGetValue :: "heap \<Rightarrow> jsval \<Rightarrow> error + addr" where
  \<open>BACnetObjectId_checkAndGetValue h v =
     (if \<not> has h v ''type'' \<or> \<not> has h v ''instance''
      then Inl (BACnet
        ''BACnetObjectId - updateValue: Value must be of type "object identifier"!'')
      else (case v of
              Ref a \<Rightarrow> Inr a
            | Prim p \<Rightarrow> Inl (BACnet
        ''BACnetObjectId - updateValue: Value must be of type "object identifier"!'')))\<close>

definition BACnetObjectId_constructor ::
  "heap \<Rightarrow> jsval \<Rightarrow> (error + BACnetObjectId) \<times> heap" where
  "BACnetObjectId_constructor h defValue =
     (if isUndefined defValue
      then (let (h', a) = alloc h [''type'' \<mapsto> JNum 0, ''instance'' \<mapsto> JNum 0]
            in (Inr \<lparr>tag = None, data = a\<rparr>, h'))
      else (let (h1, v) = clone h defValue
            in case BACnetObjectId_checkAndGetValue h1 v of
                 Inl e \<Rightarrow> (Inl e, h1)
               | Inr a \<Rightarrow> (Inr \<lparr>tag = None, data = a\<rparr>, h1)))"

definition BACnetObjectId_readValue ::
  "Reader \<Rightarrow> heap \<Rightarrow> BACnetObjectId \<Rightarrow> (error + Reader) \<times> heap \<times> BACnetObjectId" where
  "BACnetObjectId_readValue reader h this =
     (case readTag reader of
        Inl e \<Rightarrow> (Inl e, h, this)
      | Inr (t, r1) \<Rightarrow>
          (let this1 = this\<lparr>tag := Some t\<rparr>
           in case readUInt32BE r1 of
                Inl e \<Rightarrow> (Inl e, h, this1)
              | Inr (encodedObjId, r2) \<Rightarrow>
                  (let decodedObjId = decodeObjectIdentifier encodedObjId;
                       (h', a) = alloc h decodedObjId
                   in (Inr r2, h', this1\<lparr>data := a\<rparr>))))"

definition BACnetObjectId_writeParam ::
  "Writer \<Rightarrow> heap \<Rightarrow> BACnetObjectId \<Rightarrow> int \<Rightarrow> int \<Rightarrow> Writer" where
  "BACnetObjectId_writeParam writer h this tagNum tagType =
     (let dataSize = 4;
          w1 = writeTag writer tagNum tagType dataSize;
          objectIdentifier = encodeObjectIdentifier (h ! data this)
      in writeUInt32BE w1 objectIdentifier)"

definition BACnetObjectId_writeValue ::
  "PropertyType \<Rightarrow> Writer \<Rightarrow> heap \<Rightarrow> BACnetObjectId \<Rightarrow> Writer" where
  "BACnetObjectId_writeValue Enums_PropertyType writer h this =
     BACnetObjectId_writeParam writer h this
       (objectIdentifier Enums_PropertyType) TagType_application"

definition BACnetObjectId_setValue ::
  "heap \<Rightarrow> BACnetObjectId \<Rightarrow> jsval \<Rightarrow> (error + unit) \<times> heap \<times> BACnetObjectId" where
  "BACnetObjectId_setValue h this newValue =
     (let (h1, v) = clone h newValue
      in case BACnetObjectId_checkAndGetValue h1 v of
           Inl e \<Rightarrow> (Inl e, h1, this)
         | Inr a \<Rightarrow> (Inr (), h1, this\<lparr>data := a\<rparr>))"

definition BACnetObjectId_getValue :: "heap \<Rightarrow> BACnetObjectId \<Rightarrow> heap \<times> jsval" where
  "BACnetObjectId_getValue h this = cloneDeep h (Ref (data this))"

definition isEqualObjectId :: "jsobj \<Rightarrow> jsobj \<Rightarrow> bool" where
  "isEqualObjectId objId1 objId2 =
     (getField objId1 ''type'' = getField objId2 ''type''
      \<and> getField objId1 ''instance'' = getField objId2 ''instance'')"

text \<open>The comparand of \<^verbatim>\<open>isEqual\<close> is a plain value or an instance of the class
  (\<^verbatim>\<open>data instanceof BACnetObjectId\<close>).\<close>

datatype comparand = Plain jsval | Instance BACnetObjectId

definition BACnetObjectId_isEqual ::
  "heap \<Rightarrow> BACnetObjectId \<Rightarrow> comparand \<Rightarrow> bool \<times> heap" where
  "BACnetObjectId_isEqual h this d =
     (case d of
        Plain v \<Rightarrow>
          if isNil v then (False, h)
          else (case v of
                  Ref a \<Rightarrow>
                    (let (h1, v1) = BACnetObjectId_getValue h this
                     in (isEqualObjectId (ownProps h1 v1) (ownProps h1 v), h1))
                | Prim p \<Rightarrow> (False, h))
      | Instance other \<Rightarrow>
          (let (h1, v1) = BACnetObjectId_getValue h this;
               (h2, v2) = BACnetObjectId_getValue h1 other
           in (isEqualObjectId (ownProps h2 v1) (ownProps h2 v2), h2)))"

section \<open>Complex-ACK envelope\<close>

text \<open>
  Modelled from the spec: the decoded Complex-ACK envelope (\<^verbatim>\<open>complex-ack.pdu.ts\<close> is not
  among the sources, only its test is). The sequence number and the window size exist if
  and only if the PDU is segmented.
\<close>

record ComplexACK =
  pduType :: int
  segmented :: bool
  moreFollows :: bool
  invokeId :: int
  sequenceNumber :: "int option"
  windowSize :: "int option"
  serviceChoice :: int
  serviceData :: "8 word list"

text \<open>Modelled from the spec: the conditional fields of section 4.6 (absent code): if
  segmented, two more bytes, the sequence number and the window size.\<close>

definition readSegmentation :: "bool \<Rightarrow> Reader \<Rightarrow> error + (int option \<times> int option) \<times> Reader" where
  "readSegmentation seg r =
     (if seg
      then (case readUInt8 r of
              Inl e \<Rightarrow> Inl e
            | Inr (sn, r1) \<Rightarrow>
                (case readUInt8 r1 of
                   Inl e \<Rightarrow> Inl e
                 | Inr (ws, r2) \<Rightarrow> Inr ((Some sn, Some ws), r2)))
      else Inr ((None, None), r))"

text \<open>
  Modelled from the spec: \<^verbatim>\<open>complexACKPDU.getFromBuffer\<close> (absent), section 4.6. Read one
  byte: its high nibble is the PDU type, bit 3 the segmented flag, bit 2 more-follows; read
  one byte, the invoke id; read the conditional fields; read one byte, the service choice;
  the remaining bytes up to the end of the buffer are the service data. A buffer that ends
  before the service choice fails with a malformed-PDU error.
\<close>

definition getFromBuffer :: "8 word list \<Rightarrow> error + ComplexACK" where
  "getFromBuffer buf =
     (case readUInt8 \<lparr>buffer = buf, offset = 0\<rparr> of
        Inl e \<Rightarrow> Inl MalformedPDU
      | Inr (b0, r1) \<Rightarrow>
          (case readUInt8 r1 of
             Inl e \<Rightarrow> Inl MalformedPDU
           | Inr (ident, r2) \<Rightarrow>
               (case readSegmentation ((b0 div 8) mod 2 = 1) r2 of
                  Inl e \<Rightarrow> Inl MalformedPDU
                | Inr ((sn, ws), r3) \<Rightarrow>
                    (case readUInt8 r3 of
                       Inl e \<Rightarrow> Inl MalformedPDU
                     | Inr (sc, r4) \<Rightarrow>
                         Inr \<lparr>pduType = b0 div 16,
                              segmented = ((b0 div 8) mod 2 = 1),
                              moreFollows = ((b0 div 4) mod 2 = 1),
                              invokeId = ident,
                              sequenceNumber = sn,
                              windowSize = ws,
                              serviceChoice = sc,
                              serviceData = drop (offset r4) buf\<rparr>))))"

section \<open>Word lemmas\<close>

lemma take_bit_word_of_int_self:
  "0 \<le> t \<Longrightarrow> t < 2 ^ n \<Longrightarrow> take_bit n (word_of_int t :: 32 word) = word_of_int t"
  by (simp add: take_bit_of_int take_bit_int_eq_self)

lemma uint_word_of_int_self:
  "0 \<le> t \<Longrightarrow> t < 2 ^ 32 \<Longrightarrow> uint (word_of_int t :: 32 word) = t"
  by (simp add: uint_word_of_int_eq take_bit_int_eq_self)

lemma pack_unpack_word:
  fixes T I :: "32 word"
  assumes T: "take_bit 10 T = T" and I: "take_bit 22 I = I"
  shows "take_bit 10 (drop_bit 22 (push_bit 22 T OR I)) = T"
    and "take_bit 22 (push_bit 22 T OR I) = I"
proof -
  have Ib: "n < 22" if "bit I n" for n
    using that I by (metis bit_take_bit_iff)
  have Tb: "n < 10" if "bit T n" for n
    using that T by (metis bit_take_bit_iff)
  show "take_bit 10 (drop_bit 22 (push_bit 22 T OR I)) = T"
    by (rule bit_word_eqI) (auto simp: bit_simps dest: Ib Tb)
  show "take_bit 22 (push_bit 22 T OR I) = I"
    by (rule bit_word_eqI) (auto simp: bit_simps dest: Ib Tb)
qed

lemma pack_or_is_add:
  fixes T I :: "32 word"
  assumes I: "take_bit 22 I = I"
  shows "push_bit 22 T OR I = push_bit 22 T + I"
proof -
  have Ib: "n < 22" if "bit I n" for n
    using that I by (metis bit_take_bit_iff)
  show ?thesis
    by (rule disjunctive_add [symmetric]) (auto simp: bit_simps dest: Ib)
qed

lemma encodeObjectIdentifier_word:
  assumes "0 \<le> t" "t \<le> 1023" "0 \<le> i" "i \<le> 4194303"
  shows "encodeObjectIdentifier [''type'' \<mapsto> JNum t, ''instance'' \<mapsto> JNum i]
         = uint (push_bit 22 (word_of_int t) OR word_of_int i :: 32 word)"
proof -
  have T: "take_bit 10 (word_of_int t :: 32 word) = word_of_int t"
    using assms by (intro take_bit_word_of_int_self) simp_all
  have I: "take_bit 22 (word_of_int i :: 32 word) = word_of_int i"
    using assms by (intro take_bit_word_of_int_self) simp_all
  have Z: "push_bit 22 (word_of_int t :: 32 word) AND NOT (mask 22)
           = push_bit 22 (word_of_int t)"
    by (rule bit_word_eqI) (auto simp: bit_simps)
  show ?thesis
    by (simp add: encodeObjectIdentifier_def setBitRange_def getField_def T I Z)
qed

lemma pack_word_as_int:
  assumes "0 \<le> t" "t \<le> 1023" "0 \<le> i" "i \<le> 4194303"
  shows "uint (push_bit 22 (word_of_int t) OR word_of_int i :: 32 word) = t * 4194304 + i"
proof -
  have I: "take_bit 22 (word_of_int i :: 32 word) = word_of_int i"
    using assms by (intro take_bit_word_of_int_self) simp_all
  have "push_bit 22 (word_of_int t) OR word_of_int i
        = push_bit 22 (word_of_int t) + (word_of_int i :: 32 word)"
    by (rule pack_or_is_add [OF I])
  also have "\<dots> = word_of_int (t * 4194304 + i)"
    by (simp add: push_bit_eq_mult)
  finally have "uint (push_bit 22 (word_of_int t) OR word_of_int i :: 32 word)
                = uint (word_of_int (t * 4194304 + i) :: 32 word)"
    by simp
  moreover have "0 \<le> t * 4194304 + i" "t * 4194304 + i < 2 ^ 32"
    using assms by simp_all
  ultimately show ?thesis
    by (simp only: uint_word_of_int_self)
qed

lemma getBitRange_encodeObjectIdentifier:
  assumes "0 \<le> t" "t \<le> 1023" "0 \<le> i" "i \<le> 4194303"
  shows "getBitRange (encodeObjectIdentifier [''type'' \<mapsto> JNum t, ''instance'' \<mapsto> JNum i])
           22 10 = t"
    and "getBitRange (encodeObjectIdentifier [''type'' \<mapsto> JNum t, ''instance'' \<mapsto> JNum i])
           0 22 = i"
proof -
  let ?T = "word_of_int t :: 32 word" and ?I = "word_of_int i :: 32 word"
  let ?e = "encodeObjectIdentifier [''type'' \<mapsto> JNum t, ''instance'' \<mapsto> JNum i]"
  have T: "take_bit 10 ?T = ?T"
    using assms by (intro take_bit_word_of_int_self) simp_all
  have I: "take_bit 22 ?I = ?I"
    using assms by (intro take_bit_word_of_int_self) simp_all
  have e: "?e = uint (push_bit 22 ?T OR ?I)"
    using assms by (rule encodeObjectIdentifier_word)
  have ut: "uint ?T = t"
    using assms by (intro uint_word_of_int_self) simp_all
  have ui: "uint ?I = i"
    using assms by (intro uint_word_of_int_self) simp_all
  have w: "word_of_int ?e = push_bit 22 ?T OR ?I"
    by (simp only: e word_of_int_uint)
  show "getBitRange ?e 22 10 = t"
    unfolding getBitRange_def w by (simp only: pack_unpack_word(1) [OF T I] ut)
  show "getBitRange ?e 0 22 = i"
    unfolding getBitRange_def w
    by (simp only: drop_bit_0 id_apply pack_unpack_word(2) [OF T I] ui)
qed

lemma decode_encode_objectId:
  assumes "0 \<le> t" "t \<le> 1023" "0 \<le> i" "i \<le> 4194303"
  shows "decodeObjectIdentifier
           (encodeObjectIdentifier [''type'' \<mapsto> JNum t, ''instance'' \<mapsto> JNum i])
         = [''type'' \<mapsto> JNum t, ''instance'' \<mapsto> JNum i]"
  by (simp add: decodeObjectIdentifier_def getBitRange_encodeObjectIdentifier [OF assms])

lemma encodeObjectIdentifier_int:
  assumes "0 \<le> t" "t \<le> 1023" "0 \<le> i" "i \<le> 4194303"
  shows "encodeObjectIdentifier [''type'' \<mapsto> JNum t, ''instance'' \<mapsto> JNum i]
         = t * 4194304 + i"
  unfolding encodeObjectIdentifier_word [OF assms] using assms by (rule pack_word_as_int)

section \<open>Tag header lemmas\<close>

lemma header_fields:
  fixes n c v :: int
  assumes c: "c = 0 \<or> c = 1" and v: "0 \<le> v" "v \<le> 4"
  shows "(n * 16 + c * 8 + v) div 16 = n"
    and "(n * 16 + c * 8 + v) div 8 mod 2 = c"
    and "(n * 16 + c * 8 + v) mod 8 = v"
proof -
  have "0 \<le> c * 8 + v" "c * 8 + v < 16"
    using c v by auto
  then show "(n * 16 + c * 8 + v) div 16 = n"
    by (simp add: add.assoc)
  have e: "n * 16 + c * 8 + v = (n * 2 + c) * 8 + v"
    by simp
  have "0 \<le> v" "v < 8"
    using v by auto
  then have q: "(n * 16 + c * 8 + v) div 8 = n * 2 + c"
    unfolding e by simp
  show "(n * 16 + c * 8 + v) div 8 mod 2 = c"
    unfolding q using c by auto
  have "(n * 16 + c * 8 + v) mod 8 = v mod 8"
    unfolding e by (simp only: mod_mult_self3)
  then show "(n * 16 + c * 8 + v) mod 8 = v"
    using \<open>0 \<le> v\<close> \<open>v < 8\<close> by simp
qed


lemma uint8_word_of_int_self:
  "0 \<le> k \<Longrightarrow> k < 256 \<Longrightarrow> uint (word_of_int k :: 8 word) = k"
  by (simp add: uint_word_of_int_eq take_bit_int_eq_self)

lemma readUInt8_append:
  "readUInt8 \<lparr>buffer = w @ x # rest, offset = length w\<rparr>
   = Inr (uint x, \<lparr>buffer = w @ x # rest, offset = Suc (length w)\<rparr>)"
  by (simp add: readUInt8_def)

lemma readUInt8_append2:
  "readUInt8 \<lparr>buffer = w @ x # y # rest, offset = Suc (length w)\<rparr>
   = Inr (uint y, \<lparr>buffer = w @ x # y # rest, offset = Suc (Suc (length w))\<rparr>)"
  by (simp add: readUInt8_def nth_append)

lemma writeTag_small:
  assumes "0 \<le> v" "v \<le> 4"
  shows "writeTag w n c v =
         (if n \<le> 14 then w @ [word_of_int (n * 16 + c * 8 + v)]
          else w @ [word_of_int (240 + c * 8 + v), word_of_int n])"
  using assms by (simp add: writeTag_def writeUInt8_def Let_def del: of_int_add of_int_mult)

lemma readTag_writeTag_small:
  assumes n: "0 \<le> n" "n \<le> 254" and c: "c = 0 \<or> c = 1" and v: "0 \<le> v" "v \<le> 4"
  shows "readTag \<lparr>buffer = writeTag w n c v @ rest, offset = length w\<rparr>
         = Inr (\<lparr>num = n, type = c, value = v\<rparr>,
                \<lparr>buffer = writeTag w n c v @ rest, offset = length (writeTag w n c v)\<rparr>)"
proof (cases "n \<le> 14")
  case True
  have b: "0 \<le> n * 16 + c * 8 + v" "n * 16 + c * 8 + v < 256"
    using n c v True by auto
  note d = header_fields [OF c v, of n]
  have wt: "writeTag w n c v = w @ [word_of_int (n * 16 + c * 8 + v)]"
    using True by (simp only: writeTag_small [OF v] if_True)
  show ?thesis
    unfolding wt using True v
    by (simp add: readTag_def readUInt8_append uint8_word_of_int_self [OF b] d Let_def
          del: of_int_add of_int_mult)
next
  case False
  have b: "0 \<le> 240 + c * 8 + v" "240 + c * 8 + v < 256"
    using c v by auto
  note d = header_fields [OF c v, of 15, simplified]
  have nb: "0 \<le> n" "n < 256" using n by auto
  have wt: "writeTag w n c v = w @ [word_of_int (240 + c * 8 + v), word_of_int n]"
    using False by (simp only: writeTag_small [OF v] if_False)
  show ?thesis
    unfolding wt using v
    by (simp add: readTag_def readUInt8_append readUInt8_append2
          uint8_word_of_int_self [OF b] uint8_word_of_int_self [OF nb] d Let_def
          del: of_int_add of_int_mult)
qed

section \<open>Status flags byte\<close>

lemma statusFlags_byte:
  "setBit (setBit (setBit (setBit 0 7 a) 6 f) 5 ov) 4 s
   = (if a then 128 else 0) + (if f then 64 else 0) + (if ov then 32 else 0) + (if s then 16 else 0)"
  by (cases a; cases f; cases ov; cases s) (simp_all add: setBit_def)

lemma flags_bits:
  fixes a f ov s :: bool
  defines "fb \<equiv> (word_of_int ((if a then 128 else 0) + (if f then 64 else 0)
                     + (if ov then 32 else 0) + (if s then 16 else 0)) :: 8 word)"
  shows "bit fb 7 = a \<and> bit fb 6 = f \<and> bit fb 5 = ov \<and> bit fb 4 = s \<and> fb AND 15 = 0
         \<and> (fb = 128) = (a \<and> \<not> f \<and> \<not> ov \<and> \<not> s)"
  unfolding fb_def by (cases a; cases f; cases ov; cases s) simp_all

lemma bit_uint8_div:
  "n < 8 \<Longrightarrow> bit (b :: 8 word) n = (uint b div 2 ^ n mod 2 = 1)"
proof -
  assume n: "n < 8"
  have "bit b n = bit (uint b) n"
    using n by (simp add: bit_uint_iff)
  also have "\<dots> = odd (uint b div 2 ^ n)"
    by (simp add: bit_iff_odd)
  also have "\<dots> = (uint b div 2 ^ n mod 2 = 1)"
    by (simp add: odd_iff_mod_2_eq_one)
  finally show ?thesis .
qed

lemma uint8_word_of_int_mod: "uint (word_of_int k :: 8 word) = k mod 256"
  by (simp add: uint_word_of_int_eq take_bit_eq_mod)

lemma div_256_step:
  fixes v :: int
  assumes that: "0 < k"
  shows "v div (k * 256) * 256 + v div k mod 256 = v div k"
proof -
  have "v div (k * 256) = v div k div 256"
    using that by (simp add: zdiv_zmult2_eq)
  then show ?thesis
    by (simp only: div_mult_mod_eq)
qed

lemma be32_recompose:
  fixes v :: int
  assumes "0 \<le> v" "v < 4294967296"
  shows "(v div 16777216) mod 256 * 16777216 + (v div 65536) mod 256 * 65536
         + (v div 256) mod 256 * 256 + v mod 256 = v"
proof -
  have a: "v div 256 * 256 + v mod 256 = v"
    by (rule div_mult_mod_eq)
  have b: "v div 65536 * 256 + v div 256 mod 256 = v div 256"
    using div_256_step [of 256 v] by simp
  have c: "v div 16777216 * 256 + v div 65536 mod 256 = v div 65536"
    using div_256_step [of 65536 v] by simp
  have "v div 16777216 < 256" "0 \<le> v div 16777216"
    using assms by simp_all
  then have d: "(v div 16777216) mod 256 = v div 16777216"
    by simp
  show ?thesis
    unfolding d using a b c by linarith
qed


lemma readUInt32BE_writeUInt32BE:
  assumes "0 \<le> v" "v < 4294967296"
  shows "readUInt32BE \<lparr>buffer = writeUInt32BE w v @ rest, offset = length w\<rparr>
         = Inr (v, \<lparr>buffer = writeUInt32BE w v @ rest, offset = length w + 4\<rparr>)"
proof -
  have "readUInt32BE \<lparr>buffer = w @ b3 # b2 # b1 # b0 # rest, offset = length w\<rparr>
        = Inr (uint b3 * 16777216 + uint b2 * 65536 + uint b1 * 256 + uint b0,
               \<lparr>buffer = w @ b3 # b2 # b1 # b0 # rest, offset = length w + 4\<rparr>)"
    for b3 b2 b1 b0 :: "8 word"
    by (simp add: readUInt32BE_def nth_append)
  then show ?thesis
    unfolding writeUInt32BE_def
    by (simp add: uint8_word_of_int_mod be32_recompose [OF assms])
qed

lemma objectId_wire_roundtrip:
  assumes ti: "0 \<le> t" "t \<le> 1023" "0 \<le> i" "i \<le> 4194303"
    and n: "0 \<le> objectIdentifier pt" "objectIdentifier pt \<le> 254"
    and obj: "h ! data this = [''type'' \<mapsto> JNum t, ''instance'' \<mapsto> JNum i]"
  shows "BACnetObjectId_readValue
           \<lparr>buffer = BACnetObjectId_writeValue pt w h this, offset = length w\<rparr> h' that
         = (Inr \<lparr>buffer = BACnetObjectId_writeValue pt w h this,
                  offset = length (BACnetObjectId_writeValue pt w h this)\<rparr>,
            h' @ [[''type'' \<mapsto> JNum t, ''instance'' \<mapsto> JNum i]],
            that\<lparr>tag := Some \<lparr>num = objectIdentifier pt, type = TagType_application,
                                  value = 4\<rparr>,
                 data := length h'\<rparr>)"
proof -
  let ?e = "encodeObjectIdentifier [''type'' \<mapsto> JNum t, ''instance'' \<mapsto> JNum i]"
  let ?tg = "writeTag w (objectIdentifier pt) TagType_application 4"
  have e: "?e = t * 4194304 + i"
    using ti by (rule encodeObjectIdentifier_int)
  have eb: "0 \<le> ?e" "?e < 4294967296"
    unfolding e using ti by simp_all
  have wv: "BACnetObjectId_writeValue pt w h this = writeUInt32BE ?tg ?e"
    by (simp add: BACnetObjectId_writeValue_def BACnetObjectId_writeParam_def obj)
  have split: "writeUInt32BE ?tg ?e = ?tg @ writeUInt32BE [] ?e"
    by (simp add: writeUInt32BE_def)
  have c: "TagType_application = 0 \<or> TagType_application = 1"
    by (simp add: TagType_application_def)
  have rt: "readTag \<lparr>buffer = writeUInt32BE ?tg ?e, offset = length w\<rparr>
            = Inr (\<lparr>num = objectIdentifier pt, type = TagType_application, value = 4\<rparr>,
                   \<lparr>buffer = writeUInt32BE ?tg ?e, offset = length ?tg\<rparr>)"
    unfolding split using n by (intro readTag_writeTag_small c) simp_all
  have r32: "readUInt32BE \<lparr>buffer = writeUInt32BE ?tg ?e, offset = length ?tg\<rparr>
             = Inr (?e, \<lparr>buffer = writeUInt32BE ?tg ?e, offset = length ?tg + 4\<rparr>)"
    using readUInt32BE_writeUInt32BE [OF eb, of ?tg "[]"] by simp
  have len: "length (writeUInt32BE ?tg ?e) = length ?tg + 4"
    by (simp add: writeUInt32BE_def)
  show ?thesis
    unfolding wv
    by (simp add: BACnetObjectId_readValue_def rt r32 len Let_def alloc_def
          decode_encode_objectId [OF ti])
qed

lemma getBit_uint8:
  "n < 8 \<Longrightarrow> (getBit (uint (b :: 8 word)) n \<noteq> 0) = bit b n"
  by (simp add: getBit_def bit_ucast_iff flip: unsigned_of_int)

section \<open>Store lemmas\<close>

lemma clone_Ref: "clone h (Ref a) = (h @ [h ! a], Ref (length h))"
  by (simp add: clone_def alloc_def)

lemma clone_Prim: "clone h (Prim p) = (h, Prim p)"
  by (simp add: clone_def)

lemma has_clone: "has (fst (clone h v)) (snd (clone h v)) key = has h v key"
  by (cases v) (simp_all add: clone_Ref clone_Prim has_def)

lemma clone_keeps_store: "take (length h) (fst (clone h v)) = h"
  by (cases v) (simp_all add: clone_Ref clone_Prim)

lemma has_Ref: "has h v key \<Longrightarrow> \<exists>a. v = Ref a"
  by (cases v) (simp_all add: has_def)

lemma checkAndGetValue_flags:
  "BACnetStatusFlags_checkAndGetValue h v
   = (h @ [[''fault'' \<mapsto> JBool False, ''inAlarm'' \<mapsto> JBool False,
            ''outOfService'' \<mapsto> JBool False, ''overridden'' \<mapsto> JBool False]
           ++ ownProps h v], length h)"
  by (simp add: BACnetStatusFlags_checkAndGetValue_def assign_def alloc_def)

lemma objectId_check_fails:
  "\<not> has h v ''type'' \<or> \<not> has h v ''instance''
   \<Longrightarrow> \<exists>m. BACnetObjectId_checkAndGetValue h v = Inl (BACnet m)"
  by (auto simp: BACnetObjectId_checkAndGetValue_def)

lemma objectId_check_passes:
  "has h (Ref a) ''type'' \<Longrightarrow> has h (Ref a) ''instance''
   \<Longrightarrow> BACnetObjectId_checkAndGetValue h (Ref a) = Inr a"
  by (simp add: BACnetObjectId_checkAndGetValue_def)

lemma getValue_objectId:
  "BACnetObjectId_getValue h this = (h @ [h ! data this], Ref (length h))"
  by (simp add: BACnetObjectId_getValue_def cloneDeep_def clone_Ref)

lemma getValue_statusFlags:
  "BACnetStatusFlags_getValue h this = (h @ [h ! data this], Ref (length h))"
  by (simp add: BACnetStatusFlags_getValue_def cloneDeep_def clone_Ref)

lemma mutate_copy_keeps_data:
  "a < length h \<Longrightarrow> ((h @ [obj])[length h := obj']) ! a = h ! a"
  by (simp add: nth_append)

lemma ownProps_fresh: "ownProps (h @ [obj]) (Ref (length h)) = obj"
  by (simp add: ownProps_def)

lemma writeValue_objectId_cong:
  "h' ! data this = h ! data this
   \<Longrightarrow> BACnetObjectId_writeValue pt w h' this = BACnetObjectId_writeValue pt w h this"
  by (simp add: BACnetObjectId_writeValue_def BACnetObjectId_writeParam_def)

lemma writeValue_statusFlags_cong:
  "h' ! data this = h ! data this
   \<Longrightarrow> BACnetStatusFlags_writeValue pt w h' this = BACnetStatusFlags_writeValue pt w h this"
  by (simp add: BACnetStatusFlags_writeValue_def)

text \<open>The data of an instance that a constructor, a successful \<^verbatim>\<open>setValue\<close> or a
  successful \<^verbatim>\<open>readValue\<close> leaves behind is an object of the store.\<close>

lemma statusFlags_data_allocated:
  "data (snd (BACnetStatusFlags_constructor h v)) < length (fst (BACnetStatusFlags_constructor h v))"
  "data (snd (BACnetStatusFlags_setValue h this v)) < length (fst (BACnetStatusFlags_setValue h this v))"
  by (simp_all add: BACnetStatusFlags_constructor_def BACnetStatusFlags_setValue_def
        checkAndGetValue_flags)

lemma statusFlags_readValue_data_allocated:
  "BACnetStatusFlags_readValue reader h this = (Inr r, h', this') \<Longrightarrow> data this' < length h'"
  by (auto simp: BACnetStatusFlags_readValue_def Let_def alloc_def split: sum.splits prod.splits)

lemma objectId_constructor_data_allocated:
  "BACnetObjectId_constructor h v = (Inr this, h') \<Longrightarrow> data this < length h'"
  by (cases v)
     (auto simp: BACnetObjectId_constructor_def BACnetObjectId_checkAndGetValue_def alloc_def
        clone_Ref clone_Prim has_def isUndefined_def split: if_splits)

lemma objectId_setValue_data_allocated:
  "BACnetObjectId_setValue h this v = (Inr u, h', this') \<Longrightarrow> data this' < length h'"
  by (cases v)
     (auto simp: BACnetObjectId_setValue_def BACnetObjectId_checkAndGetValue_def
        clone_Ref clone_Prim has_def split: if_splits)

lemma objectId_readValue_data_allocated:
  "BACnetObjectId_readValue reader h this = (Inr r, h', this') \<Longrightarrow> data this' < length h'"
  by (auto simp: BACnetObjectId_readValue_def Let_def alloc_def split: sum.splits prod.splits)

text \<open>The bytes \<^verbatim>\<open>BACnetObjectId.writeValue\<close> puts on the wire: the tag, then the word
  most significant byte first.\<close>

lemma objectId_wire_bytes:
  assumes ti: "0 \<le> t" "t \<le> 1023" "0 \<le> i" "i \<le> 4194303"
    and obj: "h ! data this = [''type'' \<mapsto> JNum t, ''instance'' \<mapsto> JNum i]"
  shows "BACnetObjectId_writeValue pt w h this
         = writeTag w (objectIdentifier pt) TagType_application 4
           @ [word_of_int ((t * 4194304 + i) div 16777216),
              word_of_int ((t * 4194304 + i) div 65536),
              word_of_int ((t * 4194304 + i) div 256),
              word_of_int (t * 4194304 + i)]"
proof -
  have e: "encodeObjectIdentifier (h ! data this) = t * 4194304 + i"
    unfolding obj using ti by (rule encodeObjectIdentifier_int)
  show ?thesis
    unfolding BACnetObjectId_writeValue_def BACnetObjectId_writeParam_def Let_def e
      writeUInt32BE_def ..
qed

lemma objectId_wire_byte_values:
  fixes t i :: int
  assumes ti: "0 \<le> t" "t \<le> 1023" "0 \<le> i" "i \<le> 4194303"
  shows "map uint [word_of_int ((t * 4194304 + i) div 16777216) :: 8 word,
              word_of_int ((t * 4194304 + i) div 65536),
              word_of_int ((t * 4194304 + i) div 256),
              word_of_int (t * 4194304 + i)]
         = [(t * 4194304 + i) div 16777216, (t * 4194304 + i) div 65536 mod 256,
            (t * 4194304 + i) div 256 mod 256, (t * 4194304 + i) mod 256]"
proof -
  have "0 \<le> t * 4194304 + i" "t * 4194304 + i < 4294967296"
    using ti by simp_all
  then have "0 \<le> (t * 4194304 + i) div 16777216" "(t * 4194304 + i) div 16777216 < 256"
    by simp_all
  then have "(t * 4194304 + i) div 16777216 mod 256 = (t * 4194304 + i) div 16777216"
    by simp
  then show ?thesis
    by (simp only: list.map uint8_word_of_int_mod)
qed

lemma writeTag_objectId_header:
  assumes "tagNumber \<le> 14"
  shows "writeTag w tagNumber TagType_application 4 = w @ [word_of_int (tagNumber * 16 + 4)]"
  using assms by (simp add: writeTag_def writeUInt8_def TagType_application_def Let_def
      del: of_int_add of_int_mult)

section \<open>Claims\<close>

text \<open>
  C1. For every type \<open>t\<close> in 0..1023 and every instance \<open>i\<close> in 0..4194303, decoding the
  word that \<^verbatim>\<open>encodeObjectIdentifier\<close> produces for \<^verbatim>\<open>{type: t, instance: i}\<close> gives
  back exactly \<^verbatim>\<open>{type: t, instance: i}\<close>, and that word is \<^verbatim>\<open>(t << 22) | i\<close>: the
  type in bits 31-22, the instance in bits 21-0. On the wire \<^verbatim>\<open>writeValue\<close> emits the
  tag and then the four bytes of the word, most significant first (big-endian): the bytes
  are the word divided by \<open>2^24\<close>, \<open>2^16\<close>, \<open>2^8\<close> and 1, each modulo 256, in that order.
  \<^verbatim>\<open>readValue\<close> reads them back as the same object.
\<close>

theorem C1_objectId_roundtrip:
  assumes "0 \<le> t" "t \<le> 1023" "0 \<le> i" "i \<le> 4194303"
  shows "decodeObjectIdentifier
           (encodeObjectIdentifier [''type'' \<mapsto> JNum t, ''instance'' \<mapsto> JNum i])
         = [''type'' \<mapsto> JNum t, ''instance'' \<mapsto> JNum i]
       \<and> encodeObjectIdentifier [''type'' \<mapsto> JNum t, ''instance'' \<mapsto> JNum i]
         = uint (push_bit 22 (word_of_int t) OR word_of_int i :: 32 word)
       \<and> encodeObjectIdentifier [''type'' \<mapsto> JNum t, ''instance'' \<mapsto> JNum i]
         = t * 4194304 + i
       \<and> getBitRange (encodeObjectIdentifier [''type'' \<mapsto> JNum t, ''instance'' \<mapsto> JNum i])
           22 10 = t
       \<and> getBitRange (encodeObjectIdentifier [''type'' \<mapsto> JNum t, ''instance'' \<mapsto> JNum i])
           0 22 = i
       \<and> (0 \<le> objectIdentifier pt \<and> objectIdentifier pt \<le> 254
            \<and> h ! data this = [''type'' \<mapsto> JNum t, ''instance'' \<mapsto> JNum i] \<longrightarrow>
          BACnetObjectId_readValue
            \<lparr>buffer = BACnetObjectId_writeValue pt w h this, offset = length w\<rparr> h' that
          = (Inr \<lparr>buffer = BACnetObjectId_writeValue pt w h this,
                   offset = length (BACnetObjectId_writeValue pt w h this)\<rparr>,
             h' @ [[''type'' \<mapsto> JNum t, ''instance'' \<mapsto> JNum i]],
             that\<lparr>tag := Some \<lparr>num = objectIdentifier pt, type = TagType_application,
                                   value = 4\<rparr>,
                  data := length h'\<rparr>))
       \<and> (h ! data this = [''type'' \<mapsto> JNum t, ''instance'' \<mapsto> JNum i] \<longrightarrow>
          BACnetObjectId_writeValue pt w h this
          = writeTag w (objectIdentifier pt) TagType_application 4
            @ [word_of_int ((t * 4194304 + i) div 16777216),
                  word_of_int ((t * 4194304 + i) div 65536),
                  word_of_int ((t * 4194304 + i) div 256),
                  word_of_int (t * 4194304 + i)])
       \<and> (objectIdentifier pt \<le> 14
            \<and> h ! data this = [''type'' \<mapsto> JNum t, ''instance'' \<mapsto> JNum i] \<longrightarrow>
          BACnetObjectId_writeValue pt w h this
          = w @ word_of_int (objectIdentifier pt * 16 + 4)
              # [word_of_int ((t * 4194304 + i) div 16777216),
                  word_of_int ((t * 4194304 + i) div 65536),
                  word_of_int ((t * 4194304 + i) div 256),
                  word_of_int (t * 4194304 + i)])
       \<and> map uint [word_of_int ((t * 4194304 + i) div 16777216) :: 8 word,
                   word_of_int ((t * 4194304 + i) div 65536),
                   word_of_int ((t * 4194304 + i) div 256),
                   word_of_int (t * 4194304 + i)]
         = [(t * 4194304 + i) div 16777216, (t * 4194304 + i) div 65536 mod 256,
            (t * 4194304 + i) div 256 mod 256, (t * 4194304 + i) mod 256]"
proof (intro conjI impI)
  show "decodeObjectIdentifier
           (encodeObjectIdentifier [''type'' \<mapsto> JNum t, ''instance'' \<mapsto> JNum i])
         = [''type'' \<mapsto> JNum t, ''instance'' \<mapsto> JNum i]"
    using assms by (rule decode_encode_objectId)
  show "encodeObjectIdentifier [''type'' \<mapsto> JNum t, ''instance'' \<mapsto> JNum i]
         = uint (push_bit 22 (word_of_int t) OR word_of_int i :: 32 word)"
    using assms by (rule encodeObjectIdentifier_word)
  show "encodeObjectIdentifier [''type'' \<mapsto> JNum t, ''instance'' \<mapsto> JNum i]
         = t * 4194304 + i"
    using assms by (rule encodeObjectIdentifier_int)
  show "getBitRange (encodeObjectIdentifier [''type'' \<mapsto> JNum t, ''instance'' \<mapsto> JNum i])
           22 10 = t"
    using assms by (rule getBitRange_encodeObjectIdentifier(1))
  show "getBitRange (encodeObjectIdentifier [''type'' \<mapsto> JNum t, ''instance'' \<mapsto> JNum i])
           0 22 = i"
    using assms by (rule getBitRange_encodeObjectIdentifier(2))
next
  assume a: "0 \<le> objectIdentifier pt \<and> objectIdentifier pt \<le> 254
            \<and> h ! data this = [''type'' \<mapsto> JNum t, ''instance'' \<mapsto> JNum i]"
  then have n: "0 \<le> objectIdentifier pt" "objectIdentifier pt \<le> 254"
    and obj: "h ! data this = [''type'' \<mapsto> JNum t, ''instance'' \<mapsto> JNum i]"
    by simp_all
  show "BACnetObjectId_readValue
            \<lparr>buffer = BACnetObjectId_writeValue pt w h this, offset = length w\<rparr> h' that
          = (Inr \<lparr>buffer = BACnetObjectId_writeValue pt w h this,
                   offset = length (BACnetObjectId_writeValue pt w h this)\<rparr>,
             h' @ [[''type'' \<mapsto> JNum t, ''instance'' \<mapsto> JNum i]],
             that\<lparr>tag := Some \<lparr>num = objectIdentifier pt, type = TagType_application,
                                   value = 4\<rparr>,
                  data := length h'\<rparr>)"
    by (rule objectId_wire_roundtrip [OF assms n obj])
next
  assume obj: "h ! data this = [''type'' \<mapsto> JNum t, ''instance'' \<mapsto> JNum i]"
  show "BACnetObjectId_writeValue pt w h this
          = writeTag w (objectIdentifier pt) TagType_application 4
            @ [word_of_int ((t * 4194304 + i) div 16777216),
                  word_of_int ((t * 4194304 + i) div 65536),
                  word_of_int ((t * 4194304 + i) div 256),
                  word_of_int (t * 4194304 + i)]"
    by (rule objectId_wire_bytes [OF assms obj])
next
  assume a: "objectIdentifier pt \<le> 14
            \<and> h ! data this = [''type'' \<mapsto> JNum t, ''instance'' \<mapsto> JNum i]"
  then have n: "objectIdentifier pt \<le> 14"
    and obj: "h ! data this = [''type'' \<mapsto> JNum t, ''instance'' \<mapsto> JNum i]"
    by simp_all
  show "BACnetObjectId_writeValue pt w h this
          = w @ word_of_int (objectIdentifier pt * 16 + 4)
              # [word_of_int ((t * 4194304 + i) div 16777216),
                  word_of_int ((t * 4194304 + i) div 65536),
                  word_of_int ((t * 4194304 + i) div 256),
                  word_of_int (t * 4194304 + i)]"
    unfolding objectId_wire_bytes [OF assms obj] writeTag_objectId_header [OF n]
    by simp
next
  show "map uint [word_of_int ((t * 4194304 + i) div 16777216) :: 8 word,
                   word_of_int ((t * 4194304 + i) div 65536),
                   word_of_int ((t * 4194304 + i) div 256),
                   word_of_int (t * 4194304 + i)]
         = [(t * 4194304 + i) div 16777216, (t * 4194304 + i) div 65536 mod 256,
            (t * 4194304 + i) div 256 mod 256, (t * 4194304 + i) mod 256]"
    using assms by (rule objectId_wire_byte_values)
qed

theorem C1_objectId_roundtrip_witness:
  "decodeObjectIdentifier
     (encodeObjectIdentifier [''type'' \<mapsto> JNum 1023, ''instance'' \<mapsto> JNum 4194303])
   = [''type'' \<mapsto> JNum 1023, ''instance'' \<mapsto> JNum 4194303]
   \<and> encodeObjectIdentifier [''type'' \<mapsto> JNum 1023, ''instance'' \<mapsto> JNum 4194303]
     = 4294967295
   \<and> BACnetObjectId_readValue
       \<lparr>buffer = BACnetObjectId_writeValue
                    \<lparr>boolean = 1, bitString = 8, objectIdentifier = 12\<rparr> []
                    [[''type'' \<mapsto> JNum 1023, ''instance'' \<mapsto> JNum 4194303]]
                    \<lparr>tag = None, data = 0\<rparr>,
         offset = 0\<rparr> [] \<lparr>tag = None, data = 7\<rparr>
     = (Inr \<lparr>buffer = BACnetObjectId_writeValue
                    \<lparr>boolean = 1, bitString = 8, objectIdentifier = 12\<rparr> []
                    [[''type'' \<mapsto> JNum 1023, ''instance'' \<mapsto> JNum 4194303]]
                    \<lparr>tag = None, data = 0\<rparr>,
              offset = 5\<rparr>,
        [[''type'' \<mapsto> JNum 1023, ''instance'' \<mapsto> JNum 4194303]],
        \<lparr>tag = Some \<lparr>num = 12, type = 0, value = 4\<rparr>, data = 0\<rparr>)
   \<and> BACnetObjectId_writeValue \<lparr>boolean = 1, bitString = 8, objectIdentifier = 12\<rparr> []
       [[''type'' \<mapsto> JNum 8, ''instance'' \<mapsto> JNum 1]] \<lparr>tag = None, data = 0\<rparr>
     = [0xC4, 0x02, 0x00, 0x00, 0x01]
   \<and> BACnetObjectId_writeValue \<lparr>boolean = 1, bitString = 8, objectIdentifier = 12\<rparr> []
       [[''type'' \<mapsto> JNum 1, ''instance'' \<mapsto> JNum 66051]] \<lparr>tag = None, data = 0\<rparr>
     = [0xC4, 0x00, 0x41, 0x02, 0x03]"
proof -
  let ?obj = "[''type'' \<mapsto> JNum 1023, ''instance'' \<mapsto> JNum 4194303]"
  let ?pt = "\<lparr>boolean = 1, bitString = 8, objectIdentifier = 12\<rparr>"
  let ?i = "\<lparr>tag = None, data = 0 :: addr\<rparr>"
  have p: "(0::int) \<le> 1023" "(1023::int) \<le> 1023" "(0::int) \<le> 4194303"
      "(4194303::int) \<le> 4194303"
    by simp_all
  note r = C1_objectId_roundtrip [OF p,
      where pt = ?pt and h = "[?obj]" and this = ?i and w = "[]" and h' = "[]"
        and that = "\<lparr>tag = None, data = 7\<rparr>"]
  from r have d: "decodeObjectIdentifier (encodeObjectIdentifier ?obj) = ?obj"
    by (rule conjunct1)
  from r have "encodeObjectIdentifier ?obj = 1023 * 4194304 + 4194303"
    by blast
  then have e: "encodeObjectIdentifier ?obj = 4294967295"
    by simp
  have q: "0 \<le> objectIdentifier ?pt \<and> objectIdentifier ?pt \<le> 254
           \<and> [?obj] ! data ?i = ?obj"
    by simp
  have l: "length (BACnetObjectId_writeValue ?pt [] [?obj] ?i) = 5"
    by (simp add: BACnetObjectId_writeValue_def BACnetObjectId_writeParam_def
          writeUInt32BE_def writeTag_def writeUInt8_def Let_def)
  from r q have "BACnetObjectId_readValue
       \<lparr>buffer = BACnetObjectId_writeValue ?pt [] [?obj] ?i, offset = length ([] :: 8 word list)\<rparr>
       [] \<lparr>tag = None, data = 7\<rparr>
     = (Inr \<lparr>buffer = BACnetObjectId_writeValue ?pt [] [?obj] ?i,
              offset = length (BACnetObjectId_writeValue ?pt [] [?obj] ?i)\<rparr>,
        [] @ [?obj],
        \<lparr>tag = None, data = 7\<rparr>\<lparr>tag := Some \<lparr>num = objectIdentifier ?pt,
              type = TagType_application, value = 4\<rparr>, data := length ([] :: heap)\<rparr>)"
    by blast
  then have f: "BACnetObjectId_readValue
       \<lparr>buffer = BACnetObjectId_writeValue ?pt [] [?obj] ?i, offset = 0\<rparr>
       [] \<lparr>tag = None, data = 7\<rparr>
     = (Inr \<lparr>buffer = BACnetObjectId_writeValue ?pt [] [?obj] ?i, offset = 5\<rparr>,
        [?obj], \<lparr>tag = Some \<lparr>num = 12, type = 0, value = 4\<rparr>, data = 0\<rparr>)"
    unfolding l by (simp add: TagType_application_def)
  have g: "BACnetObjectId_writeValue ?pt []
       [[''type'' \<mapsto> JNum 8, ''instance'' \<mapsto> JNum 1]] ?i
     = [0xC4, 0x02, 0x00, 0x00, 0x01]"
    using C1_objectId_roundtrip [where t = 8 and i = 1 and pt = ?pt and w = "[]"
        and h = "[[''type'' \<mapsto> JNum 8, ''instance'' \<mapsto> JNum 1]]" and this = ?i,
        THEN conjunct2, THEN conjunct2, THEN conjunct2, THEN conjunct2, THEN conjunct2,
        THEN conjunct2, THEN conjunct2, THEN conjunct1]
    by simp
  have k: "BACnetObjectId_writeValue ?pt []
       [[''type'' \<mapsto> JNum 1, ''instance'' \<mapsto> JNum 66051]] ?i
     = [0xC4, 0x00, 0x41, 0x02, 0x03]"
    using C1_objectId_roundtrip [where t = 1 and i = 66051 and pt = ?pt and w = "[]"
        and h = "[[''type'' \<mapsto> JNum 1, ''instance'' \<mapsto> JNum 66051]]" and this = ?i,
        THEN conjunct2, THEN conjunct2, THEN conjunct2, THEN conjunct2, THEN conjunct2,
        THEN conjunct2, THEN conjunct2, THEN conjunct1]
    by simp
  from d e f g k show ?thesis
    by (intro conjI)
qed

text \<open>
  C2. \<^verbatim>\<open>BACnetBoolean.writeValue\<close> emits one application-class tag whose length/value
  subfield is the boolean as 0 or 1, and no payload byte: read back, the bytes written are
  exactly that tag, and for a tag number up to 14 they are the single header byte.
  \<^verbatim>\<open>BACnetBoolean.readValue\<close> on a context-class tag reads exactly one payload byte and
  stores true if and only if that byte is nonzero.
\<close>

theorem C2_boolean_dual_form:
  "(0 \<le> boolean pt \<and> boolean pt \<le> 254 \<longrightarrow>
      readTag \<lparr>buffer = BACnetBoolean_writeValue pt w this @ rest, offset = length w\<rparr>
      = Inr (\<lparr>num = boolean pt, type = TagType_application,
               value = (if data this then 1 else 0)\<rparr>,
             \<lparr>buffer = BACnetBoolean_writeValue pt w this @ rest,
               offset = length (BACnetBoolean_writeValue pt w this)\<rparr>))
   \<and> (0 \<le> boolean pt \<and> boolean pt \<le> 14 \<longrightarrow>
      BACnetBoolean_writeValue pt w this
      = w @ [word_of_int (boolean pt * 16 + (if data this then 1 else 0))])
   \<and> (readTag reader = Inr (t, r1) \<and> type t = TagType_context
        \<and> offset r1 < length (buffer r1) \<longrightarrow>
      BACnetBoolean_readValue reader this
      = (Inr (r1\<lparr>offset := offset r1 + 1\<rparr>),
         this\<lparr>tag := Some t, data := (buffer r1 ! offset r1 \<noteq> 0)\<rparr>))"
proof (intro conjI impI)
  assume n: "0 \<le> boolean pt \<and> boolean pt \<le> 254"
  have v: "0 \<le> (if data this then 1 else 0 :: int)" "(if data this then 1 else 0 :: int) \<le> 4"
    by simp_all
  from n have n1: "0 \<le> boolean pt" and n2: "boolean pt \<le> 254"
    by simp_all
  have c: "TagType_application = 0 \<or> TagType_application = 1"
    by (simp add: TagType_application_def)
  show "readTag \<lparr>buffer = BACnetBoolean_writeValue pt w this @ rest, offset = length w\<rparr>
      = Inr (\<lparr>num = boolean pt, type = TagType_application,
               value = (if data this then 1 else 0)\<rparr>,
             \<lparr>buffer = BACnetBoolean_writeValue pt w this @ rest,
               offset = length (BACnetBoolean_writeValue pt w this)\<rparr>)"
    unfolding BACnetBoolean_writeValue_def
    by (rule readTag_writeTag_small [OF n1 n2 c v])
next
  assume n: "0 \<le> boolean pt \<and> boolean pt \<le> 14"
  have v: "0 \<le> (if data this then 1 else 0 :: int)" "(if data this then 1 else 0 :: int) \<le> 4"
    by simp_all
  show "BACnetBoolean_writeValue pt w this
      = w @ [word_of_int (boolean pt * 16 + (if data this then 1 else 0))]"
    using n unfolding BACnetBoolean_writeValue_def writeTag_small [OF v]
    by (simp add: TagType_application_def)
next
  assume a: "readTag reader = Inr (t, r1) \<and> type t = TagType_context
        \<and> offset r1 < length (buffer r1)"
  then have r: "readUInt8 r1 = Inr (uint (buffer r1 ! offset r1), r1\<lparr>offset := offset r1 + 1\<rparr>)"
    by (simp add: readUInt8_def)
  have z: "(uint (buffer r1 ! offset r1) \<noteq> 0) = (buffer r1 ! offset r1 \<noteq> 0)"
    by (simp add: uint_0_iff)
  from a show "BACnetBoolean_readValue reader this
      = (Inr (r1\<lparr>offset := offset r1 + 1\<rparr>),
         this\<lparr>tag := Some t, data := (buffer r1 ! offset r1 \<noteq> 0)\<rparr>)"
    by (simp add: BACnetBoolean_readValue_def r z Let_def TagType_context_def TagType_application_def)
qed

theorem C2_boolean_dual_form_witness:
  "BACnetBoolean_writeValue \<lparr>boolean = 1, bitString = 8, objectIdentifier = 12\<rparr> []
     \<lparr>tag = None, data = True\<rparr> = [0x11]
   \<and> readTag \<lparr>buffer = [0x11], offset = 0\<rparr>
     = Inr (\<lparr>num = 1, type = 0, value = 1\<rparr>, \<lparr>buffer = [0x11], offset = 1\<rparr>)
   \<and> BACnetBoolean_readValue \<lparr>buffer = [0x19, 0x01], offset = 0\<rparr> \<lparr>tag = None, data = False\<rparr>
     = (Inr \<lparr>buffer = [0x19, 0x01], offset = 2\<rparr>,
        \<lparr>tag = Some \<lparr>num = 1, type = 1, value = 1\<rparr>, data = True\<rparr>)
   \<and> BACnetBoolean_readValue \<lparr>buffer = [0x19, 0x00], offset = 0\<rparr> \<lparr>tag = None, data = True\<rparr>
     = (Inr \<lparr>buffer = [0x19, 0x00], offset = 2\<rparr>,
        \<lparr>tag = Some \<lparr>num = 1, type = 1, value = 1\<rparr>, data = False\<rparr>)
   \<and> BACnetBoolean_readValue \<lparr>buffer = [0x19, 0xA7], offset = 0\<rparr> \<lparr>tag = None, data = False\<rparr>
     = (Inr \<lparr>buffer = [0x19, 0xA7], offset = 2\<rparr>,
        \<lparr>tag = Some \<lparr>num = 1, type = 1, value = 1\<rparr>, data = True\<rparr>)"
proof -
  let ?pt = "\<lparr>boolean = 1, bitString = 8, objectIdentifier = 12\<rparr>"
  let ?t = "\<lparr>num = 1, type = 1, value = 1\<rparr>"
  have rt: "readTag \<lparr>buffer = [0x19, b], offset = 0\<rparr>
            = Inr (?t, \<lparr>buffer = [0x19, b], offset = 1\<rparr>)" for b
    by (simp add: readTag_def readUInt8_def Let_def)
  let ?bt = "\<lparr>tag = None, data = True\<rparr>"
  note c2 = C2_boolean_dual_form [where pt = ?pt and w = "[]" and this = ?bt and rest = "[]"]
  have w1: "BACnetBoolean_writeValue ?pt [] ?bt = [0x11]"
    using c2 [THEN conjunct2, THEN conjunct1] by simp
  have "readTag \<lparr>buffer = BACnetBoolean_writeValue ?pt [] ?bt @ [], offset = length ([] :: 8 word list)\<rparr>
      = Inr (\<lparr>num = boolean ?pt, type = TagType_application,
               value = (if data ?bt then 1 else 0)\<rparr>,
             \<lparr>buffer = BACnetBoolean_writeValue ?pt [] ?bt @ [],
               offset = length (BACnetBoolean_writeValue ?pt [] ?bt)\<rparr>)"
    using c2 [THEN conjunct1] by simp
  then have w2: "readTag \<lparr>buffer = [0x11], offset = 0\<rparr>
       = Inr (\<lparr>num = 1, type = 0, value = 1\<rparr>, \<lparr>buffer = [0x11], offset = 1\<rparr>)"
    unfolding w1 by (simp add: TagType_application_def)
  note w = conjI [OF w1 w2]
  have r: "BACnetBoolean_readValue \<lparr>buffer = [0x19, b], offset = 0\<rparr> \<lparr>tag = None, data = d\<rparr>
     = (Inr \<lparr>buffer = [0x19, b], offset = 2\<rparr>, \<lparr>tag = Some ?t, data = (b \<noteq> 0)\<rparr>)" for b d
    using C2_boolean_dual_form [of ?pt "[]" "\<lparr>tag = None, data = d\<rparr>" "[]"
        "\<lparr>buffer = [0x19, b], offset = 0\<rparr>" ?t "\<lparr>buffer = [0x19, b], offset = 1\<rparr>"]
    by (simp add: rt TagType_context_def)
  show ?thesis
    using w r [of "0x01" False] r [of "0x00" True] r [of "0xA7" False] by simp
qed

text \<open>
  C3. On a tag of application class, \<^verbatim>\<open>BACnetBoolean.readValue\<close> stores the truthiness
  of the tag's length/value field and reads no payload byte: the reader is left where the
  tag ended.
\<close>

theorem C3_boolean_application_read:
  assumes "readTag reader = Inr (t, r1)" and "type t = TagType_application"
  shows "BACnetBoolean_readValue reader this
         = (Inr r1, this\<lparr>tag := Some t, data := (value t \<noteq> 0)\<rparr>)"
  using assms by (simp add: BACnetBoolean_readValue_def Let_def)

theorem C3_boolean_application_read_witness:
  "BACnetBoolean_readValue \<lparr>buffer = [0x11, 0x55], offset = 0\<rparr> \<lparr>tag = None, data = False\<rparr>
     = (Inr \<lparr>buffer = [0x11, 0x55], offset = 1\<rparr>,
        \<lparr>tag = Some \<lparr>num = 1, type = 0, value = 1\<rparr>, data = True\<rparr>)
   \<and> BACnetBoolean_readValue \<lparr>buffer = [0x10, 0x55], offset = 0\<rparr> \<lparr>tag = None, data = True\<rparr>
     = (Inr \<lparr>buffer = [0x10, 0x55], offset = 1\<rparr>,
        \<lparr>tag = Some \<lparr>num = 1, type = 0, value = 0\<rparr>, data = False\<rparr>)"
proof -
  have rt: "readTag \<lparr>buffer = [0x11, 0x55], offset = 0\<rparr>
            = Inr (\<lparr>num = 1, type = 0, value = 1\<rparr>, \<lparr>buffer = [0x11, 0x55], offset = 1\<rparr>)"
       "readTag \<lparr>buffer = [0x10, 0x55], offset = 0\<rparr>
            = Inr (\<lparr>num = 1, type = 0, value = 0\<rparr>, \<lparr>buffer = [0x10, 0x55], offset = 1\<rparr>)"
    by (simp_all add: readTag_def readUInt8_def Let_def)
  show ?thesis
    using C3_boolean_application_read [OF rt(1), of "\<lparr>tag = None, data = False\<rparr>"]
          C3_boolean_application_read [OF rt(2), of "\<lparr>tag = None, data = True\<rparr>"]
    by (simp add: TagType_application_def)
qed

text \<open>
  C4. For every stored flag state, \<^verbatim>\<open>BACnetStatusFlags.writeValue\<close> emits a bit-string
  application tag of payload length 2, then the unused-bits byte 4, then one payload byte
  whose bits 7, 6, 5, 4 are inAlarm, fault, overridden, outOfService and whose bits 3-0
  are zero.
\<close>

theorem C4_statusFlags_writeValue:
  "BACnetStatusFlags_writeValue pt w h this
   = writeTag w (bitString pt) TagType_application 2
     @ [4, word_of_int
             ((if ToBoolean (getField (h ! data this) ''inAlarm'') then 128 else 0)
              + (if ToBoolean (getField (h ! data this) ''fault'') then 64 else 0)
              + (if ToBoolean (getField (h ! data this) ''overridden'') then 32 else 0)
              + (if ToBoolean (getField (h ! data this) ''outOfService'') then 16 else 0))]
   \<and> (0 \<le> bitString pt \<and> bitString pt \<le> 254 \<longrightarrow>
        readTag \<lparr>buffer = BACnetStatusFlags_writeValue pt w h this, offset = length w\<rparr>
        = Inr (\<lparr>num = bitString pt, type = TagType_application, value = 2\<rparr>,
               \<lparr>buffer = BACnetStatusFlags_writeValue pt w h this,
                 offset = length (writeTag w (bitString pt) TagType_application 2)\<rparr>))
   \<and> bit (last (BACnetStatusFlags_writeValue pt w h this)) 7
       = ToBoolean (getField (h ! data this) ''inAlarm'')
   \<and> bit (last (BACnetStatusFlags_writeValue pt w h this)) 6
       = ToBoolean (getField (h ! data this) ''fault'')
   \<and> bit (last (BACnetStatusFlags_writeValue pt w h this)) 5
       = ToBoolean (getField (h ! data this) ''overridden'')
   \<and> bit (last (BACnetStatusFlags_writeValue pt w h this)) 4
       = ToBoolean (getField (h ! data this) ''outOfService'')
   \<and> last (BACnetStatusFlags_writeValue pt w h this) AND 15 = 0"
proof -
  let ?a = "ToBoolean (getField (h ! data this) ''inAlarm'')"
  let ?f = "ToBoolean (getField (h ! data this) ''fault'')"
  let ?o = "ToBoolean (getField (h ! data this) ''overridden'')"
  let ?s = "ToBoolean (getField (h ! data this) ''outOfService'')"
  let ?n = "(if ?a then 128 else 0) + (if ?f then 64 else 0)
            + (if ?o then 32 else 0) + (if ?s then 16 else (0::int))"
  let ?t = "writeTag w (bitString pt) TagType_application 2"
  have e: "BACnetStatusFlags_writeValue pt w h this = ?t @ [4, word_of_int ?n]"
    unfolding BACnetStatusFlags_writeValue_def Let_def statusFlags_byte
    by (simp add: writeUInt8_def TagType_application_def del: of_int_add)
  have l: "last (BACnetStatusFlags_writeValue pt w h this) = word_of_int ?n"
    unfolding e by simp
  note fb = flags_bits [of ?a ?f ?o ?s]
  have rd: "readTag \<lparr>buffer = BACnetStatusFlags_writeValue pt w h this, offset = length w\<rparr>
        = Inr (\<lparr>num = bitString pt, type = TagType_application, value = 2\<rparr>,
               \<lparr>buffer = BACnetStatusFlags_writeValue pt w h this,
                 offset = length ?t\<rparr>)"
    if n: "0 \<le> bitString pt \<and> bitString pt \<le> 254"
  proof -
    have c: "TagType_application = 0 \<or> TagType_application = 1"
      by (simp add: TagType_application_def)
    have "readTag \<lparr>buffer = ?t @ [4, word_of_int ?n], offset = length w\<rparr>
          = Inr (\<lparr>num = bitString pt, type = TagType_application, value = 2\<rparr>,
                 \<lparr>buffer = ?t @ [4, word_of_int ?n], offset = length ?t\<rparr>)"
      using n by (intro readTag_writeTag_small c) simp_all
    then show ?thesis
      unfolding e .
  qed
  show ?thesis
    unfolding l using e rd fb by (intro conjI impI) simp_all
qed

theorem C4_statusFlags_writeValue_witness:
  "BACnetStatusFlags_writeValue \<lparr>boolean = 1, bitString = 8, objectIdentifier = 12\<rparr> []
     (fst (BACnetStatusFlags_constructor [[''inAlarm'' \<mapsto> JBool True]] (Ref 0)))
     (snd (BACnetStatusFlags_constructor [[''inAlarm'' \<mapsto> JBool True]] (Ref 0)))
   = [0x82, 0x04, 0x80]"
proof -
  let ?pt = "\<lparr>boolean = 1, bitString = 8, objectIdentifier = 12\<rparr>"
  let ?c = "BACnetStatusFlags_constructor [[''inAlarm'' \<mapsto> JBool True]] (Ref 0)"
  have c: "?c = ([[''inAlarm'' \<mapsto> JBool True],
                  [''fault'' \<mapsto> JBool False, ''inAlarm'' \<mapsto> JBool True,
                   ''outOfService'' \<mapsto> JBool False, ''overridden'' \<mapsto> JBool False]],
                 \<lparr>tag = None, data = 1\<rparr>)"
    by (simp add: BACnetStatusFlags_constructor_def BACnetStatusFlags_checkAndGetValue_def
          assign_def alloc_def ownProps_def map_add_def fun_eq_iff)
  have t: "writeTag [] 8 TagType_application 2 = [0x82]"
    by (simp add: writeTag_def writeUInt8_def TagType_application_def)
  show ?thesis
    using C4_statusFlags_writeValue [of ?pt "[]" "fst ?c" "snd ?c", THEN conjunct1]
    unfolding c by (simp add: t getField_def)
qed

text \<open>
  C5. Decoding a Complex-ACK envelope reads the sequence number and the window size if
  and only if bit 3 of the first byte (segmented) is set: without it the service choice is
  the third byte, with it exactly two more bytes come before the service choice. A buffer
  that begins 0x30, 0x01, 0x0c decodes to PDU type 3 (Complex-ACK), not segmented, invoke
  id 1, service choice 0x0c, and every remaining byte is the service data.
\<close>

theorem C5_complexACK_conditional_fields:
  "(\<not> bit b0 3 \<longrightarrow>
      getFromBuffer (b0 # ident # sc # sd)
      = Inr \<lparr>pduType = uint b0 div 16, segmented = False, moreFollows = bit b0 2,
             invokeId = uint ident, sequenceNumber = None, windowSize = None,
             serviceChoice = uint sc, serviceData = sd\<rparr>)
   \<and> (bit b0 3 \<longrightarrow>
      getFromBuffer (b0 # ident # sn # ws # sc # sd)
      = Inr \<lparr>pduType = uint b0 div 16, segmented = True, moreFollows = bit b0 2,
             invokeId = uint ident, sequenceNumber = Some (uint sn),
             windowSize = Some (uint ws),
             serviceChoice = uint sc, serviceData = sd\<rparr>)
   \<and> getFromBuffer (0x30 # 0x01 # 0x0c # sd)
     = Inr \<lparr>pduType = 3, segmented = False, moreFollows = False,
            invokeId = 1, sequenceNumber = None, windowSize = None,
            serviceChoice = 12, serviceData = sd\<rparr>"
proof -
  have b3: "bit b0 3 = (uint b0 div 8 mod 2 = 1)"
    using bit_uint8_div [of 3 b0] by simp
  have b2: "bit b0 2 = (uint b0 div 4 mod 2 = 1)"
    using bit_uint8_div [of 2 b0] by simp
  have unseg: "getFromBuffer (x # i # c # d)
      = Inr \<lparr>pduType = uint x div 16, segmented = False,
             moreFollows = (uint x div 4 mod 2 = 1),
             invokeId = uint i, sequenceNumber = None, windowSize = None,
             serviceChoice = uint c, serviceData = d\<rparr>"
    if "uint x div 8 mod 2 \<noteq> 1" for x i c d
    using that by (simp add: getFromBuffer_def readUInt8_def readSegmentation_def)
  have seg: "getFromBuffer (b0 # ident # sn # ws # sc # sd)
      = Inr \<lparr>pduType = uint b0 div 16, segmented = True,
             moreFollows = (uint b0 div 4 mod 2 = 1),
             invokeId = uint ident, sequenceNumber = Some (uint sn),
             windowSize = Some (uint ws),
             serviceChoice = uint sc, serviceData = sd\<rparr>"
    if "uint b0 div 8 mod 2 = 1"
    using that by (simp add: getFromBuffer_def readUInt8_def readSegmentation_def)
  have ex: "getFromBuffer (0x30 # 0x01 # 0x0c # sd)
     = Inr \<lparr>pduType = 3, segmented = False, moreFollows = False,
            invokeId = 1, sequenceNumber = None, windowSize = None,
            serviceChoice = 12, serviceData = sd\<rparr>"
    using unseg [of "0x30" "0x01" "0x0c" sd] by simp
  show ?thesis
    using unseg [of b0 ident sc sd] seg ex by (simp add: b3 b2)
qed

theorem C5_complexACK_conditional_fields_witness:
  "getFromBuffer [0x30, 0x01, 0x0c, 0x0c, 0x02, 0x00, 0x00, 0x01, 0x19, 0x0c, 0x3e, 0x75,
                  0x07, 0x00, 0x56, 0x31, 0x2e, 0x30, 0x2e, 0x30, 0x3f]
   = Inr \<lparr>pduType = 3, segmented = False, moreFollows = False,
          invokeId = 1, sequenceNumber = None, windowSize = None, serviceChoice = 12,
          serviceData = [0x0c, 0x02, 0x00, 0x00, 0x01, 0x19, 0x0c, 0x3e, 0x75,
                         0x07, 0x00, 0x56, 0x31, 0x2e, 0x30, 0x2e, 0x30, 0x3f]\<rparr>
   \<and> getFromBuffer [0x38, 0x01, 0x05, 0x06, 0x0c, 0x0c, 0x02]
   = Inr \<lparr>pduType = 3, segmented = True, moreFollows = False,
          invokeId = 1, sequenceNumber = Some 5, windowSize = Some 6, serviceChoice = 12,
          serviceData = [0x0c, 0x02]\<rparr>"
proof -
  have n: "\<not> bit (0x30 :: 8 word) 3" and y: "bit (0x38 :: 8 word) 3"
    by simp_all
  show ?thesis
    using C5_complexACK_conditional_fields
            [where ?b0.0 = "0x30" and ident = "0x01" and sc = "0x0c"
               and sd = "[0x0c, 0x02, 0x00, 0x00, 0x01, 0x19, 0x0c, 0x3e, 0x75,
                          0x07, 0x00, 0x56, 0x31, 0x2e, 0x30, 0x2e, 0x30, 0x3f]",
             THEN conjunct1, rule_format, OF n]
          C5_complexACK_conditional_fields
            [where ?b0.0 = "0x38" and ident = "0x01" and sn = "0x05" and ws = "0x06"
               and sc = "0x0c" and sd = "[0x0c, 0x02]",
             THEN conjunct2, THEN conjunct1, rule_format, OF y]
    by simp
qed

text \<open>
  C6. Construction and \<^verbatim>\<open>setValue\<close> differ between the two compound types.
  \<^verbatim>\<open>BACnetStatusFlags\<close> accepts any value, a partial flags object or none at all, never
  fails, and stores a new object in which each of the four flags the value does not have
  is false and each flag it has keeps its value. \<^verbatim>\<open>BACnetObjectId\<close>'s constructor, given
  a payload (anything but \<^verbatim>\<open>undefined\<close>), and its \<^verbatim>\<open>setValue\<close> throw whenever the
  payload lacks \<^verbatim>\<open>type\<close> or \<^verbatim>\<open>instance\<close>, and default neither field; a payload with
  both is copied and stored.
\<close>

theorem C6_defaulting_asymmetry:
  "(\<forall>key \<in> {''inAlarm'', ''fault'', ''overridden'', ''outOfService''}.
      (fst (BACnetStatusFlags_checkAndGetValue h v)
         ! snd (BACnetStatusFlags_checkAndGetValue h v)) key
      = (case ownProps h v key of None \<Rightarrow> Some (JBool False) | Some x \<Rightarrow> Some x))
   \<and> BACnetStatusFlags_constructor h v
     = (fst (BACnetStatusFlags_checkAndGetValue h v),
        \<lparr>tag = None, data = snd (BACnetStatusFlags_checkAndGetValue h v)\<rparr>)
   \<and> BACnetStatusFlags_setValue h flags v
     = (fst (BACnetStatusFlags_checkAndGetValue h v),
        flags\<lparr>data := snd (BACnetStatusFlags_checkAndGetValue h v)\<rparr>)
   \<and> (\<not> isUndefined v \<and> (\<not> has h v ''type'' \<or> \<not> has h v ''instance'') \<longrightarrow>
        (\<exists>m. fst (BACnetObjectId_constructor h v) = Inl (BACnet m)))
   \<and> (\<not> has h v ''type'' \<or> \<not> has h v ''instance'' \<longrightarrow>
        (\<exists>m. fst (BACnetObjectId_setValue h objId v) = Inl (BACnet m))
        \<and> snd (snd (BACnetObjectId_setValue h objId v)) = objId)
   \<and> (has h v ''type'' \<and> has h v ''instance'' \<longrightarrow>
        (\<exists>a. v = Ref a
           \<and> BACnetObjectId_constructor h v
             = (Inr \<lparr>tag = None, data = length h\<rparr>, h @ [h ! a])
           \<and> BACnetObjectId_setValue h objId v
             = (Inr (), h @ [h ! a], objId\<lparr>data := length h\<rparr>)))"
proof (intro conjI ballI impI)
  fix key :: string
  assume "key \<in> {''inAlarm'', ''fault'', ''overridden'', ''outOfService''}"
  then show "(fst (BACnetStatusFlags_checkAndGetValue h v)
         ! snd (BACnetStatusFlags_checkAndGetValue h v)) key
      = (case ownProps h v key of None \<Rightarrow> Some (JBool False) | Some x \<Rightarrow> Some x)"
    by (auto simp: checkAndGetValue_flags map_add_def split: option.splits)
next
  show "BACnetStatusFlags_constructor h v
     = (fst (BACnetStatusFlags_checkAndGetValue h v),
        \<lparr>tag = None, data = snd (BACnetStatusFlags_checkAndGetValue h v)\<rparr>)"
    by (simp add: BACnetStatusFlags_constructor_def split_beta)
next
  show "BACnetStatusFlags_setValue h flags v
     = (fst (BACnetStatusFlags_checkAndGetValue h v),
        flags\<lparr>data := snd (BACnetStatusFlags_checkAndGetValue h v)\<rparr>)"
    by (simp add: BACnetStatusFlags_setValue_def split_beta)
next
  assume a: "\<not> isUndefined v \<and> (\<not> has h v ''type'' \<or> \<not> has h v ''instance'')"
  then have "\<not> has (fst (clone h v)) (snd (clone h v)) ''type''
             \<or> \<not> has (fst (clone h v)) (snd (clone h v)) ''instance''"
    by (simp add: has_clone)
  from objectId_check_fails [OF this] a
  show "\<exists>m. fst (BACnetObjectId_constructor h v) = Inl (BACnet m)"
    by (auto simp: BACnetObjectId_constructor_def split_beta)
next
  assume a: "\<not> has h v ''type'' \<or> \<not> has h v ''instance''"
  then have "\<not> has (fst (clone h v)) (snd (clone h v)) ''type''
             \<or> \<not> has (fst (clone h v)) (snd (clone h v)) ''instance''"
    by (simp add: has_clone)
  from objectId_check_fails [OF this]
  show "\<exists>m. fst (BACnetObjectId_setValue h objId v) = Inl (BACnet m)"
   and "snd (snd (BACnetObjectId_setValue h objId v)) = objId"
    by (auto simp: BACnetObjectId_setValue_def split_beta)
next
  assume a: "has h v ''type'' \<and> has h v ''instance''"
  then obtain a where v: "v = Ref a"
    using has_Ref by blast
  have "has (fst (clone h v)) (snd (clone h v)) ''type''"
       "has (fst (clone h v)) (snd (clone h v)) ''instance''"
    using a by (simp_all add: has_clone)
  then have c: "BACnetObjectId_checkAndGetValue (h @ [h ! a]) (Ref (length h)) = Inr (length h)"
    unfolding v clone_Ref by (simp add: objectId_check_passes)
  show "\<exists>a. v = Ref a
           \<and> BACnetObjectId_constructor h v
             = (Inr \<lparr>tag = None, data = length h\<rparr>, h @ [h ! a])
           \<and> BACnetObjectId_setValue h objId v
             = (Inr (), h @ [h ! a], objId\<lparr>data := length h\<rparr>)"
    using c by (simp add: v BACnetObjectId_constructor_def BACnetObjectId_setValue_def
                  clone_Ref isUndefined_def)
qed

theorem C6_defaulting_asymmetry_witness:
  "(fst (BACnetStatusFlags_checkAndGetValue
          [[''inAlarm'' \<mapsto> JBool True], [''type'' \<mapsto> JNum 8]] (Ref 0))
     ! snd (BACnetStatusFlags_checkAndGetValue
          [[''inAlarm'' \<mapsto> JBool True], [''type'' \<mapsto> JNum 8]] (Ref 0))) ''inAlarm''
   = Some (JBool True)
   \<and> (fst (BACnetStatusFlags_checkAndGetValue
          [[''inAlarm'' \<mapsto> JBool True], [''type'' \<mapsto> JNum 8]] (Ref 0))
     ! snd (BACnetStatusFlags_checkAndGetValue
          [[''inAlarm'' \<mapsto> JBool True], [''type'' \<mapsto> JNum 8]] (Ref 0))) ''fault''
   = Some (JBool False)
   \<and> (\<exists>m. fst (BACnetObjectId_constructor
          [[''inAlarm'' \<mapsto> JBool True], [''type'' \<mapsto> JNum 8]] (Ref 1)) = Inl (BACnet m))
   \<and> (\<exists>m. fst (BACnetObjectId_setValue
          [[''inAlarm'' \<mapsto> JBool True], [''type'' \<mapsto> JNum 8]]
          \<lparr>tag = None, data = 1\<rparr> (Ref 1)) = Inl (BACnet m))
   \<and> snd (snd (BACnetObjectId_setValue
          [[''inAlarm'' \<mapsto> JBool True], [''type'' \<mapsto> JNum 8]]
          \<lparr>tag = None, data = 1\<rparr> (Ref 1))) = \<lparr>tag = None, data = 1\<rparr>"
proof -
  let ?h = "[[''inAlarm'' \<mapsto> JBool True], [''type'' \<mapsto> JNum 8 :: jsprim]]"
  let ?o = "\<lparr>tag = None, data = 1 :: addr\<rparr>"
  have p0: "ownProps ?h (Ref 0) ''inAlarm'' = Some (JBool True)"
           "ownProps ?h (Ref 0) ''fault'' = None"
    by (simp_all add: ownProps_def)
  have n: "\<not> isUndefined (Ref 1) \<and> (\<not> has ?h (Ref 1) ''type'' \<or> \<not> has ?h (Ref 1) ''instance'')"
    by (simp add: isUndefined_def has_def)
  note f = C6_defaulting_asymmetry [where h = ?h and v = "Ref 0" and flags = ?o and objId = ?o]
  note g = C6_defaulting_asymmetry [where h = ?h and v = "Ref 1" and flags = ?o and objId = ?o]
  have a: "(fst (BACnetStatusFlags_checkAndGetValue ?h (Ref 0))
            ! snd (BACnetStatusFlags_checkAndGetValue ?h (Ref 0))) ''inAlarm'' = Some (JBool True)"
    using f [THEN conjunct1, THEN bspec, of "''inAlarm''"] by (simp add: p0)
  have b: "(fst (BACnetStatusFlags_checkAndGetValue ?h (Ref 0))
            ! snd (BACnetStatusFlags_checkAndGetValue ?h (Ref 0))) ''fault'' = Some (JBool False)"
    using f [THEN conjunct1, THEN bspec, of "''fault''"] by (simp add: p0)
  have c: "\<exists>m. fst (BACnetObjectId_constructor ?h (Ref 1)) = Inl (BACnet m)"
    using g n by blast
  have d: "(\<exists>m. fst (BACnetObjectId_setValue ?h ?o (Ref 1)) = Inl (BACnet m))
           \<and> snd (snd (BACnetObjectId_setValue ?h ?o (Ref 1))) = ?o"
    using g n by blast
  from a b c d show ?thesis
    by blast
qed

text \<open>
  C7. \<^verbatim>\<open>BACnetStatusFlags.readValue\<close> does not inspect the tag it reads: whatever the
  class and the number of the tag, when two bytes follow it the call succeeds, stores the
  tag, skips the unused-bits byte and decodes bits 7, 6, 5, 4 of the next byte into a new
  flags object. The code raises no error for an unexpected tag: a context-class tag
  numbered 1 is decoded like any other.
\<close>

theorem C7_statusFlags_read_ignores_tag:
  assumes "readTag reader = Inr (t, r1)" and "offset r1 + 2 \<le> length (buffer r1)"
  shows "BACnetStatusFlags_readValue reader h this
         = (Inr (r1\<lparr>offset := offset r1 + 2\<rparr>),
            h @ [[''inAlarm'' \<mapsto> JBool (bit (buffer r1 ! (offset r1 + 1)) 7),
                  ''fault'' \<mapsto> JBool (bit (buffer r1 ! (offset r1 + 1)) 6),
                  ''overridden'' \<mapsto> JBool (bit (buffer r1 ! (offset r1 + 1)) 5),
                  ''outOfService'' \<mapsto> JBool (bit (buffer r1 ! (offset r1 + 1)) 4)]],
            this\<lparr>tag := Some t, data := length h\<rparr>)"
proof -
  have u: "readUInt8 r1 = Inr (uint (buffer r1 ! offset r1), r1\<lparr>offset := Suc (offset r1)\<rparr>)"
    using assms(2) by (simp add: readUInt8_def)
  have v: "readUInt8 (r1\<lparr>offset := Suc (offset r1)\<rparr>)
           = Inr (uint (buffer r1 ! Suc (offset r1)), r1\<lparr>offset := Suc (Suc (offset r1))\<rparr>)"
    using assms(2) by (simp add: readUInt8_def)
  show ?thesis
    by (simp add: BACnetStatusFlags_readValue_def assms(1) u v Let_def alloc_def getBit_uint8)
qed

theorem C7_statusFlags_read_ignores_tag_witness:
  "BACnetStatusFlags_readValue \<lparr>buffer = [0x82, 0x04, 0x50], offset = 0\<rparr>
     [[''inAlarm'' \<mapsto> JBool True]] \<lparr>tag = None, data = 0\<rparr>
   = (Inr \<lparr>buffer = [0x82, 0x04, 0x50], offset = 3\<rparr>,
      [[''inAlarm'' \<mapsto> JBool True],
       [''inAlarm'' \<mapsto> JBool False, ''fault'' \<mapsto> JBool True,
        ''overridden'' \<mapsto> JBool False, ''outOfService'' \<mapsto> JBool True]],
      \<lparr>tag = Some \<lparr>num = 8, type = 0, value = 2\<rparr>, data = 1\<rparr>)"
proof -
  have rt: "readTag \<lparr>buffer = [0x82, 0x04, 0x50], offset = 0\<rparr>
            = Inr (\<lparr>num = 8, type = 0, value = 2\<rparr>, \<lparr>buffer = [0x82, 0x04, 0x50], offset = 1\<rparr>)"
    by (simp add: readTag_def readUInt8_def Let_def)
  have len: "offset \<lparr>buffer = [0x82, 0x04, 0x50 :: 8 word], offset = 1\<rparr> + 2
             \<le> length (buffer \<lparr>buffer = [0x82, 0x04, 0x50 :: 8 word], offset = 1\<rparr>)"
    by simp
  show ?thesis
    using C7_statusFlags_read_ignores_tag [OF rt len, of "[[''inAlarm'' \<mapsto> JBool True]]"
             "\<lparr>tag = None, data = 0\<rparr>"]
    by simp
qed

theorem C7_context_tag_is_decoded:
  "fst (BACnetStatusFlags_readValue \<lparr>buffer = [0x1A, 0x04, 0x80], offset = 0\<rparr>
          (fst (BACnetStatusFlags_constructor [] (Prim JUndefined)))
          (snd (BACnetStatusFlags_constructor [] (Prim JUndefined))))
   = Inr \<lparr>buffer = [0x1A, 0x04, 0x80], offset = 3\<rparr>
   \<and> tag (snd (snd (BACnetStatusFlags_readValue \<lparr>buffer = [0x1A, 0x04, 0x80], offset = 0\<rparr>
          (fst (BACnetStatusFlags_constructor [] (Prim JUndefined)))
          (snd (BACnetStatusFlags_constructor [] (Prim JUndefined))))))
     = Some \<lparr>num = 1, type = TagType_context, value = 2\<rparr>
   \<and> getField
        (fst (snd (BACnetStatusFlags_readValue \<lparr>buffer = [0x1A, 0x04, 0x80], offset = 0\<rparr>
          (fst (BACnetStatusFlags_constructor [] (Prim JUndefined)))
          (snd (BACnetStatusFlags_constructor [] (Prim JUndefined)))))
         ! data (snd (snd (BACnetStatusFlags_readValue
          \<lparr>buffer = [0x1A, 0x04, 0x80], offset = 0\<rparr>
          (fst (BACnetStatusFlags_constructor [] (Prim JUndefined)))
          (snd (BACnetStatusFlags_constructor [] (Prim JUndefined)))))))
        ''inAlarm''
     = JBool True"
proof -
  have rt: "readTag \<lparr>buffer = [0x1A, 0x04, 0x80], offset = 0\<rparr>
            = Inr (\<lparr>num = 1, type = 1, value = 2\<rparr>, \<lparr>buffer = [0x1A, 0x04, 0x80], offset = 1\<rparr>)"
    by (simp add: readTag_def readUInt8_def Let_def)
  have c: "BACnetStatusFlags_constructor [] (Prim JUndefined)
           = ([[''fault'' \<mapsto> JBool False, ''inAlarm'' \<mapsto> JBool False,
                ''outOfService'' \<mapsto> JBool False, ''overridden'' \<mapsto> JBool False]],
              \<lparr>tag = None, data = 0\<rparr>)"
    by (simp add: BACnetStatusFlags_constructor_def checkAndGetValue_flags ownProps_def)
  show ?thesis
    unfolding c
    by (simp add: BACnetStatusFlags_readValue_def rt readUInt8_def Let_def alloc_def
          getBit_def getField_def TagType_context_def)
qed

text \<open>
  C8. For every instance whose data is an object of the store, \<^verbatim>\<open>getValue\<close> of
  \<^verbatim>\<open>BACnetStatusFlags\<close> and of \<^verbatim>\<open>BACnetObjectId\<close> returns a reference to a new object
  with the same properties as the stored data. Whatever is then done to the returned
  object (here: replacing it by an arbitrary object), the stored data is unchanged, and so
  are the results of later \<^verbatim>\<open>getValue\<close> and \<^verbatim>\<open>writeValue\<close> calls.
\<close>

theorem C8_getValue_returns_fresh_copy:
  assumes "data this < length h"
  shows "BACnetObjectId_getValue h this = (h @ [h ! data this], Ref (length h))
       \<and> BACnetStatusFlags_getValue h this = (h @ [h ! data this], Ref (length h))
       \<and> ownProps (h @ [h ! data this]) (Ref (length h)) = h ! data this
       \<and> length h \<noteq> data this
       \<and> ((h @ [h ! data this])[length h := obj']) ! data this = h ! data this
       \<and> ownProps (fst (BACnetObjectId_getValue ((h @ [h ! data this])[length h := obj']) this))
                   (snd (BACnetObjectId_getValue ((h @ [h ! data this])[length h := obj']) this))
         = h ! data this
       \<and> ownProps (fst (BACnetStatusFlags_getValue ((h @ [h ! data this])[length h := obj']) this))
                   (snd (BACnetStatusFlags_getValue ((h @ [h ! data this])[length h := obj']) this))
         = h ! data this
       \<and> BACnetObjectId_writeValue pt w ((h @ [h ! data this])[length h := obj']) this
         = BACnetObjectId_writeValue pt w h this
       \<and> BACnetStatusFlags_writeValue pt w ((h @ [h ! data this])[length h := obj']) this
         = BACnetStatusFlags_writeValue pt w h this"
proof -
  let ?h2 = "(h @ [h ! data this])[length h := obj']"
  have k: "?h2 ! data this = h ! data this"
    using assms by (rule mutate_copy_keeps_data)
  have o: "ownProps (h @ [h ! data this]) (Ref (length h)) = h ! data this"
    by (rule ownProps_fresh)
  have f: "length h \<noteq> data this"
    using assms by simp
  have g: "ownProps (?h2 @ [?h2 ! data this]) (Ref (length ?h2)) = h ! data this"
    unfolding ownProps_fresh by (rule k)
  show ?thesis
    unfolding getValue_objectId getValue_statusFlags fst_conv snd_conv
    using k o f g writeValue_objectId_cong [OF k] writeValue_statusFlags_cong [OF k]
    by (intro conjI) (rule refl | assumption)+
qed

theorem C8_getValue_returns_fresh_copy_witness:
  "BACnetObjectId_getValue [[''type'' \<mapsto> JNum 8, ''instance'' \<mapsto> JNum 1]]
     \<lparr>tag = None, data = 0\<rparr>
   = ([[''type'' \<mapsto> JNum 8, ''instance'' \<mapsto> JNum 1],
       [''type'' \<mapsto> JNum 8, ''instance'' \<mapsto> JNum 1]], Ref 1)
   \<and> [[''type'' \<mapsto> JNum 8, ''instance'' \<mapsto> JNum 1],
       [''type'' \<mapsto> JNum 99, ''instance'' \<mapsto> JNum 1]] ! 0
     = [''type'' \<mapsto> JNum 8, ''instance'' \<mapsto> JNum 1]
   \<and> BACnetObjectId_writeValue \<lparr>boolean = 1, bitString = 8, objectIdentifier = 12\<rparr> []
       [[''type'' \<mapsto> JNum 8, ''instance'' \<mapsto> JNum 1],
        [''type'' \<mapsto> JNum 99, ''instance'' \<mapsto> JNum 1]]
       \<lparr>tag = None, data = 0\<rparr>
     = BACnetObjectId_writeValue \<lparr>boolean = 1, bitString = 8, objectIdentifier = 12\<rparr> []
       [[''type'' \<mapsto> JNum 8, ''instance'' \<mapsto> JNum 1]]
       \<lparr>tag = None, data = 0\<rparr>"
proof -
  let ?obj = "[''type'' \<mapsto> JNum 8, ''instance'' \<mapsto> JNum 1]"
  let ?obj' = "[''type'' \<mapsto> JNum 99, ''instance'' \<mapsto> JNum 1]"
  let ?i = "\<lparr>tag = None, data = 0 :: addr\<rparr>"
  let ?pt = "\<lparr>boolean = 1, bitString = 8, objectIdentifier = 12\<rparr>"
  have a: "data ?i < length [?obj]"
    by simp
  have m: "([?obj] @ [[?obj] ! data ?i])[length [?obj] := ?obj'] = [?obj, ?obj']"
    by simp
  have g: "[?obj] @ [[?obj] ! data ?i] = [?obj, ?obj]"
    by simp
  note t = C8_getValue_returns_fresh_copy [OF a, where obj' = ?obj' and pt = ?pt and w = "[]"]
  from t have 1: "BACnetObjectId_getValue [?obj] ?i = ([?obj] @ [[?obj] ! data ?i], Ref (length [?obj]))"
    by (rule conjunct1)
  from t have 2: "(([?obj] @ [[?obj] ! data ?i])[length [?obj] := ?obj']) ! data ?i = [?obj] ! data ?i"
    by blast
  from t have 3: "BACnetObjectId_writeValue ?pt [] (([?obj] @ [[?obj] ! data ?i])[length [?obj] := ?obj']) ?i
         = BACnetObjectId_writeValue ?pt [] [?obj] ?i"
    by blast
  from 1 2 3 show ?thesis
    unfolding m g by simp
qed

text \<open>
  C9. \<^verbatim>\<open>BACnetObjectId.isEqual\<close> returns false for an \<^verbatim>\<open>undefined\<close> or \<^verbatim>\<open>null\<close>
  comparand, and for a raw object or another instance it returns true exactly when both
  the \<^verbatim>\<open>type\<close> and the \<^verbatim>\<open>instance\<close> field of the comparand equal those of the stored
  value; a boolean or a number is never equal. It is a total function of the model: no
  branch throws.
\<close>

theorem C9_isEqual:
  "fst (BACnetObjectId_isEqual h this (Plain (Prim JUndefined))) = False
   \<and> fst (BACnetObjectId_isEqual h this (Plain (Prim JNull))) = False
   \<and> (a < length h \<longrightarrow>
        fst (BACnetObjectId_isEqual h this (Plain (Ref a)))
        = (getField (h ! data this) ''type'' = getField (h ! a) ''type''
           \<and> getField (h ! data this) ''instance'' = getField (h ! a) ''instance''))
   \<and> (data other < length h \<longrightarrow>
        fst (BACnetObjectId_isEqual h this (Instance other))
        = (getField (h ! data this) ''type'' = getField (h ! data other) ''type''
           \<and> getField (h ! data this) ''instance'' = getField (h ! data other) ''instance''))
   \<and> fst (BACnetObjectId_isEqual h this (Plain (Prim (JBool b)))) = False
   \<and> fst (BACnetObjectId_isEqual h this (Plain (Prim (JNum n)))) = False"
  by (simp add: BACnetObjectId_isEqual_def isNil_def getValue_objectId isEqualObjectId_def
        ownProps_def nth_append)

theorem C9_isEqual_witness:
  "fst (BACnetObjectId_isEqual
         [[''type'' \<mapsto> JNum 8, ''instance'' \<mapsto> JNum 1],
          [''type'' \<mapsto> JNum 8, ''instance'' \<mapsto> JNum 1],
          [''type'' \<mapsto> JNum 8, ''instance'' \<mapsto> JNum 2]]
         \<lparr>tag = None, data = 0\<rparr> (Plain (Ref 1))) = True
   \<and> fst (BACnetObjectId_isEqual
         [[''type'' \<mapsto> JNum 8, ''instance'' \<mapsto> JNum 1],
          [''type'' \<mapsto> JNum 8, ''instance'' \<mapsto> JNum 1],
          [''type'' \<mapsto> JNum 8, ''instance'' \<mapsto> JNum 2]]
         \<lparr>tag = None, data = 0\<rparr> (Plain (Ref 2))) = False
   \<and> fst (BACnetObjectId_isEqual
         [[''type'' \<mapsto> JNum 8, ''instance'' \<mapsto> JNum 1],
          [''type'' \<mapsto> JNum 8, ''instance'' \<mapsto> JNum 1],
          [''type'' \<mapsto> JNum 8, ''instance'' \<mapsto> JNum 2]]
         \<lparr>tag = None, data = 0\<rparr> (Instance \<lparr>tag = None, data = 1\<rparr>)) = True
   \<and> fst (BACnetObjectId_isEqual
         [[''type'' \<mapsto> JNum 8, ''instance'' \<mapsto> JNum 1],
          [''type'' \<mapsto> JNum 8, ''instance'' \<mapsto> JNum 1],
          [''type'' \<mapsto> JNum 8, ''instance'' \<mapsto> JNum 2]]
         \<lparr>tag = None, data = 0\<rparr> (Instance \<lparr>tag = None, data = 2\<rparr>)) = False"
proof -
  let ?h = "[[''type'' \<mapsto> JNum 8, ''instance'' \<mapsto> JNum 1],
          [''type'' \<mapsto> JNum 8, ''instance'' \<mapsto> JNum 1],
          [''type'' \<mapsto> JNum 8, ''instance'' \<mapsto> JNum 2 :: jsprim]]"
  let ?i = "\<lparr>tag = None, data = 0 :: addr\<rparr>"
  note t = C9_isEqual [where h = ?h and this = ?i]
  have 1: "fst (BACnetObjectId_isEqual ?h ?i (Plain (Ref 1))) = True"
    using t [where a = 1, THEN conjunct2, THEN conjunct2, THEN conjunct1]
    by (simp add: getField_def)
  have 2: "fst (BACnetObjectId_isEqual ?h ?i (Plain (Ref 2))) = False"
    using t [where a = 2, THEN conjunct2, THEN conjunct2, THEN conjunct1]
    by (simp add: getField_def)
  have 3: "fst (BACnetObjectId_isEqual ?h ?i (Instance \<lparr>tag = None, data = 1\<rparr>)) = True"
    using t [where other = "\<lparr>tag = None, data = 1\<rparr>", THEN conjunct2, THEN conjunct2,
             THEN conjunct2, THEN conjunct1]
    by (simp add: getField_def)
  have 4: "fst (BACnetObjectId_isEqual ?h ?i (Instance \<lparr>tag = None, data = 2\<rparr>)) = False"
    using t [where other = "\<lparr>tag = None, data = 2\<rparr>", THEN conjunct2, THEN conjunct2,
             THEN conjunct2, THEN conjunct1]
    by (simp add: getField_def)
  from 1 2 3 4 show ?thesis
    by (intro conjI)
qed

text \<open>
  C10. When \<^verbatim>\<open>setValue\<close> is given a value that fails validation (a non-boolean for
  \<^verbatim>\<open>BACnetBoolean\<close>, a value lacking \<^verbatim>\<open>type\<close> or \<^verbatim>\<open>instance\<close> for
  \<^verbatim>\<open>BACnetObjectId\<close>), it throws and leaves the instance, its tag and its data, exactly
  as it was; every object the store held before the call is unchanged too.
\<close>

theorem C10_failed_setters_have_no_effect:
  "(\<not> isBoolean v \<longrightarrow> (\<exists>m. BACnetBoolean_setValue b v = (Inl (BACnet m), b)))
   \<and> (\<not> has h v ''type'' \<or> \<not> has h v ''instance'' \<longrightarrow>
        (\<exists>m h'. BACnetObjectId_setValue h objId v = (Inl (BACnet m), h', objId)
                \<and> take (length h) h' = h))"
proof (intro conjI impI)
  assume "\<not> isBoolean v"
  then show "\<exists>m. BACnetBoolean_setValue b v = (Inl (BACnet m), b)"
    by (simp add: BACnetBoolean_setValue_def BACnetBoolean_checkAndGetValue_def)
next
  assume a: "\<not> has h v ''type'' \<or> \<not> has h v ''instance''"
  then have "\<not> has (fst (clone h v)) (snd (clone h v)) ''type''
             \<or> \<not> has (fst (clone h v)) (snd (clone h v)) ''instance''"
    by (simp add: has_clone)
  from objectId_check_fails [OF this] obtain m
    where "BACnetObjectId_checkAndGetValue (fst (clone h v)) (snd (clone h v)) = Inl (BACnet m)"
    by blast
  then have "BACnetObjectId_setValue h objId v = (Inl (BACnet m), fst (clone h v), objId)"
    by (simp add: BACnetObjectId_setValue_def split_beta)
  then show "\<exists>m h'. BACnetObjectId_setValue h objId v = (Inl (BACnet m), h', objId)
                \<and> take (length h) h' = h"
    using clone_keeps_store by blast
qed

theorem C10_failed_setters_have_no_effect_witness:
  "(\<exists>m. BACnetBoolean_setValue \<lparr>tag = Some \<lparr>num = 1, type = 0, value = 1\<rparr>, data = True\<rparr>
           (Prim (JNum 0))
         = (Inl (BACnet m), \<lparr>tag = Some \<lparr>num = 1, type = 0, value = 1\<rparr>, data = True\<rparr>))
   \<and> (\<exists>m h'. BACnetObjectId_setValue
                 [[''type'' \<mapsto> JNum 8, ''instance'' \<mapsto> JNum 1], [''type'' \<mapsto> JNum 2]]
                 \<lparr>tag = None, data = 0\<rparr> (Ref 1)
               = (Inl (BACnet m), h', \<lparr>tag = None, data = 0\<rparr>)
               \<and> take 2 h' = [[''type'' \<mapsto> JNum 8, ''instance'' \<mapsto> JNum 1],
                                [''type'' \<mapsto> JNum 2]])"
proof -
  let ?h = "[[''type'' \<mapsto> JNum 8, ''instance'' \<mapsto> JNum 1], [''type'' \<mapsto> JNum 2 :: jsprim]]"
  have nb: "\<not> isBoolean (Prim (JNum 0))"
    by (simp add: isBoolean_def)
  have nh: "\<not> has ?h (Ref 1) ''type'' \<or> \<not> has ?h (Ref 1) ''instance''"
    by (simp add: has_def)
  note t = C10_failed_setters_have_no_effect
             [where v = "Prim (JNum 0)"
                and b = "\<lparr>tag = Some \<lparr>num = 1, type = 0, value = 1\<rparr>, data = True\<rparr>"]
  note u = C10_failed_setters_have_no_effect
             [where v = "Ref 1" and h = ?h and objId = "\<lparr>tag = None, data = 0\<rparr>"]
  have l: "length ?h = 2"
    by simp
  note t' = t [THEN conjunct1, rule_format, OF nb]
  note u' = u [THEN conjunct2, rule_format, OF nh, unfolded l]
  from t' u' show ?thesis
    by (rule conjI)
qed

end
